theory Spec2Isabelle
  imports Main "HOL-Library.AList"
begin

section \<open>Python values the project resolver works on\<close>

text \<open>
  The resolver of \<^verbatim>\<open>src/project.py\<close> reads a TOML manifest, walks directories and
  fills dictionaries. Python strings are \<^typ>\<open>string\<close>. A Python \<^verbatim>\<open>dict\<close> keeps its keys
  in insertion order, and \<^verbatim>\<open>d.update({k: v})\<close> on a key that is already there replaces
  the value in place: this is \<^const>\<open>AList.update\<close> on an association list, and
  \<^verbatim>\<open>k in d\<close> is membership in the list of keys. The platform is POSIX
  (\<^verbatim>\<open>os.sep = '/'\<close>, \<^verbatim>\<open>os.path = posixpath\<close>).
\<close>

type_synonym ('k, 'v) dict = "('k \<times> 'v) list"

definition dict_in :: "'k \<Rightarrow> ('k, 'v) dict \<Rightarrow> bool" where
  "dict_in k d = (k \<in> set (map fst d))"

text \<open>
  Exceptions are values. \<open>Exception msg\<close> is the bare \<^verbatim>\<open>raise Exception()\<close> of the source,
  which in all three places directly follows a \<^verbatim>\<open>print\<close> of \<open>msg\<close>: the constructor
  carries the printed line, the exception object itself has no arguments.
  \<open>NotModelled\<close> marks an input outside the modelled fragment of a library function
  (regular expressions, \<^verbatim>\<open>str.format\<close>) in the concrete environments below.
\<close>

datatype py_error =
    KeyError string
  | FileNotFoundError string
  | IsADirectoryError string
  | NotADirectoryError string
  | AttributeError string
  | Exception string
  | re_error
  | TomlParsingError
  | OtherError string
  | NotModelled

definition bind :: "py_error + 'a \<Rightarrow> ('a \<Rightarrow> py_error + 'b) \<Rightarrow> py_error + 'b" where
  "bind m f = (case m of Inl e \<Rightarrow> Inl e | Inr x \<Rightarrow> f x)"

subsection \<open>Strings and paths (posixpath)\<close>

definition backslash :: char where
  "backslash = CHR 0x5C"

definition dquote :: char where
  "dquote = CHR 0x22"

definition os_sep :: string where
  "os_sep = ''/''"

text \<open>\<^verbatim>\<open>s.rfind(c)\<close>: the index of the last occurrence of \<open>c\<close>, or \<open>-1\<close>.\<close>

definition rfind :: "string \<Rightarrow> char \<Rightarrow> int" where
  "rfind s c =
     (if c \<in> set s then int (length s) - 1 - int (length (takeWhile (\<lambda>x. x \<noteq> c) (rev s)))
      else - 1)"

text \<open>\<^verbatim>\<open>s.replace('\\', '/')\<close>.\<close>

definition replace_backslash :: "string \<Rightarrow> string" where
  "replace_backslash s = map (\<lambda>c. if c = backslash then CHR ''/'' else c) s"

text \<open>
  \<^verbatim>\<open>s[:-n]\<close> for \<open>n = len(ext_name) \<ge> 0\<close>. For \<open>n = 0\<close> the slice is \<^verbatim>\<open>s[:0]\<close>, the empty
  string; for \<open>n > 0\<close> it drops the last \<open>n\<close> characters.
\<close>

definition slice_to_neg :: "string \<Rightarrow> nat \<Rightarrow> string" where
  "slice_to_neg s n = (if n = 0 then [] else take (length s - n) s)"

text \<open>\<^verbatim>\<open>posixpath.join(a, b)\<close>.\<close>

definition os_path_join :: "string \<Rightarrow> string \<Rightarrow> string" where
  "os_path_join a b =
     (if b \<noteq> [] \<and> hd b = CHR ''/'' then b
      else if a = [] \<or> last a = CHR ''/'' then a @ b
      else a @ ''/'' @ b)"

text \<open>\<^verbatim>\<open>posixpath.basename(p)\<close>: \<^verbatim>\<open>i = p.rfind('/') + 1; return p[i:]\<close>.\<close>

definition os_path_basename :: "string \<Rightarrow> string" where
  "os_path_basename p = drop (nat (rfind p CHR ''/'' + 1)) p"

text \<open>
  \<^verbatim>\<open>posixpath.splitext(p)\<close> (\<^verbatim>\<open>genericpath._splitext\<close>): the extension starts at the last
  dot, when that dot lies after the last separator and some character between the
  separator and the dot is not a dot (leading dots do not start an extension).
\<close>

definition os_path_splitext :: "string \<Rightarrow> string \<times> string" where
  "os_path_splitext p =
     (let sepIndex = rfind p CHR ''/'';
          dotIndex = rfind p CHR ''.''
      in if dotIndex > sepIndex \<and>
            list_ex (\<lambda>c. c \<noteq> CHR ''.'')
              (take (nat (dotIndex - (sepIndex + 1))) (drop (nat (sepIndex + 1)) p))
         then (take (nat dotIndex) p, drop (nat dotIndex) p)
         else (p, []))"

text \<open>\<^verbatim>\<open>s.split('/')\<close> and \<^verbatim>\<open>'/'.join(comps)\<close>.\<close>

fun split_on :: "char \<Rightarrow> string \<Rightarrow> string list" where
  "split_on s [] = [[]]"
| "split_on s (c # cs) =
     (if c = s then [] # split_on s cs
      else (case split_on s cs of [] \<Rightarrow> [[c]] | w # ws \<Rightarrow> (c # w) # ws))"

fun join_with :: "string \<Rightarrow> string list \<Rightarrow> string" where
  "join_with s [] = []"
| "join_with s [w] = w"
| "join_with s (w # ws) = w @ s @ join_with s ws"

text \<open>The loop of \<^verbatim>\<open>posixpath.normpath\<close> over the components, \<open>new_comps\<close> the accumulator.\<close>

fun normpath_comps :: "bool \<Rightarrow> string list \<Rightarrow> string list \<Rightarrow> string list" where
  "normpath_comps initial_slashes [] new_comps = new_comps"
| "normpath_comps initial_slashes (part # comps) new_comps =
     (if part = [] \<or> part = ''.'' then normpath_comps initial_slashes comps new_comps
      else if part \<noteq> ''..'' \<or> (\<not> initial_slashes \<and> new_comps = []) \<or>
              (new_comps \<noteq> [] \<and> last new_comps = ''..'')
           then normpath_comps initial_slashes comps (new_comps @ [part])
      else if new_comps \<noteq> [] then normpath_comps initial_slashes comps (butlast new_comps)
      else normpath_comps initial_slashes comps new_comps)"

definition os_path_normpath :: "string \<Rightarrow> string" where
  "os_path_normpath path =
     (if path = [] then ''.''
      else
        let initial_slashes =
              (if take 1 path = ''/''
               then (if take 2 path = ''//'' \<and> take 3 path \<noteq> ''///'' then 2 else 1)
               else (0::nat));
            new_comps = normpath_comps (initial_slashes \<noteq> 0) (split_on CHR ''/'' path) [];
            p = replicate initial_slashes CHR ''/'' @ join_with ''/'' new_comps
        in if p = [] then ''.'' else p)"

subsection \<open>The environment: file system and library functions\<close>

text \<open>
  A directory holds sub-directories and file names, in the order \<^verbatim>\<open>os.scandir\<close> lists
  them (which no caller may rely on). A file is a TOML document or something else.
  A TOML table of the manifest is a map from its keys to string values; a document has
  the four top-level entries the resolver reads (\<^verbatim>\<open>project\<close>, \<^verbatim>\<open>ip\<close> of the primary
  manifest, \<^verbatim>\<open>lib\<close>, \<^verbatim>\<open>ext_including_dir\<close> of the spec file), each optional. Values of
  another TOML type than the resolver expects are outside the model.
\<close>

datatype dirtree = Dir "(string \<times> dirtree) list" "string list"

type_synonym toml_table = "string \<rightharpoonup> string"

record toml_doc =
  project :: "toml_table option"
  ip :: "toml_table list option"
  lib :: "toml_table list option"
  ext_including_dir :: "string list option"

datatype file_content = TomlFile toml_doc | OtherFile

text \<open>
  The environment of one run. \<open>tree_at\<close> and \<open>file_at\<close> give what a path string, as the
  program writes it, denotes on disk (nothing, when it does not exist). \<open>re_compile\<close> is
  \<^verbatim>\<open>re.compile\<close> followed by \<^verbatim>\<open>.match\<close>: the predicate "the pattern matches at the start of
  the text", or the error of compiling. \<open>str_format\<close> is \<^verbatim>\<open>template.format(arg)\<close>.
  \<open>mkdir_error\<close> is the error \<^verbatim>\<open>os.mkdir\<close> raises on a path, if any (a missing parent
  gives \<open>FileNotFoundError\<close> with the path as its file name).
\<close>

record env =
  cwd :: string
  tree_at :: "string \<rightharpoonup> dirtree"
  file_at :: "string \<rightharpoonup> file_content"
  re_compile :: "string \<Rightarrow> py_error + (string \<Rightarrow> bool)"
  str_format :: "string \<Rightarrow> string \<Rightarrow> py_error + string"
  mkdir_error :: "string \<rightharpoonup> py_error"

text \<open>\<^verbatim>\<open>posixpath.abspath\<close>: join with the working directory unless absolute, then normalise.\<close>

definition os_path_abspath :: "env \<Rightarrow> string \<Rightarrow> string" where
  "os_path_abspath e path =
     os_path_normpath (if take 1 path = ''/'' then path else os_path_join (cwd e) path)"

text \<open>
  \<^verbatim>\<open>os.walk(top)\<close>, top-down, as the list of its \<open>(path, files)\<close> pairs (the resolver
  ignores the middle component). With the default \<^verbatim>\<open>onerror=None\<close> a directory that
  cannot be listed, a missing one included, is skipped silently: the walk of a path that
  is no directory is empty.
\<close>

fun walk_tree :: "string \<Rightarrow> dirtree \<Rightarrow> (string \<times> string list) list"
  and walk_subdirs :: "string \<Rightarrow> (string \<times> dirtree) list \<Rightarrow> (string \<times> string list) list" where
  "walk_tree path (Dir subdirs files) = (path, files) # walk_subdirs path subdirs"
| "walk_subdirs path [] = []"
| "walk_subdirs path ((d, t) # rest) = walk_tree (os_path_join path d) t @ walk_subdirs path rest"

definition os_walk :: "env \<Rightarrow> string \<Rightarrow> (string \<times> string list) list" where
  "os_walk e top_dir = (case tree_at e top_dir of None \<Rightarrow> [] | Some t \<Rightarrow> walk_tree top_dir t)"

text \<open>
  \<^verbatim>\<open>str(Path(p))\<close> of \<^verbatim>\<open>pathlib\<close> on POSIX: the root is kept (two leading slashes
  exactly stay two, any other number becomes one), empty components and \<^verbatim>\<open>.\<close> are
  dropped, \<^verbatim>\<open>..\<close> stays, and the empty path prints as \<^verbatim>\<open>.\<close>.
\<close>

definition Path_str :: "string \<Rightarrow> string" where
  "Path_str p =
     (let stripped = dropWhile (\<lambda>c. c = CHR ''/'') p;
          n = length p - length stripped;
          root = (if n = 0 then [] else if n = 2 then ''//'' else ''/'');
          parts = filter (\<lambda>x. x \<noteq> [] \<and> x \<noteq> ''.'') (split_on CHR ''/'' stripped);
          s = root @ join_with ''/'' parts
      in if s = [] then ''.'' else s)"

text \<open>
  The directories a path goes through: its proper prefixes that end before a slash,
  shortest first (the root itself left out).
\<close>

definition path_prefixes :: "string \<Rightarrow> string list" where
  "path_prefixes p = map (\<lambda>i. take i p) (filter (\<lambda>i. p ! i = CHR ''/'') [1..<length p])"

text \<open>
  The error of opening a path \<open>q\<close> at which there is no file. The components are looked
  up in order: the first one that is no directory decides, \<open>NotADirectoryError\<close> when it
  is a file and \<open>FileNotFoundError\<close> when it is missing; when all are directories, \<open>q\<close>
  itself is a directory (\<open>IsADirectoryError\<close>) or missing. The file name of the error is
  the path that was opened.
\<close>

fun open_error :: "env \<Rightarrow> string \<Rightarrow> string list \<Rightarrow> py_error" where
  "open_error e q [] =
     (if tree_at e q \<noteq> None then IsADirectoryError q else FileNotFoundError q)"
| "open_error e q (a # rest) =
     (if tree_at e a \<noteq> None then open_error e q rest
      else if file_at e a \<noteq> None then NotADirectoryError q
      else FileNotFoundError q)"

text \<open>
  \<^verbatim>\<open>rtoml.load(Path(p))\<close> reads the text of the file at \<^verbatim>\<open>Path(p)\<close> and parses it. The path
  opened, and the file name of an error of opening it, is \<^verbatim>\<open>str(Path(p))\<close>.
\<close>

definition rtoml_load :: "env \<Rightarrow> string \<Rightarrow> py_error + toml_doc" where
  "rtoml_load e p =
     (let q = Path_str p
      in case file_at e q of
           None \<Rightarrow> Inl (open_error e q (path_prefixes q))
         | Some OtherFile \<Rightarrow> Inl TomlParsingError
         | Some (TomlFile d) \<Rightarrow> Inr d)"

definition os_path_exists :: "env \<Rightarrow> string \<Rightarrow> bool" where
  "os_path_exists e p = (tree_at e p \<noteq> None \<or> file_at e p \<noteq> None)"

definition os_mkdir :: "env \<Rightarrow> string \<Rightarrow> py_error + env" where
  "os_mkdir e p =
     (case mkdir_error e p of
        Some err \<Rightarrow> Inl err
      | None \<Rightarrow> Inr (e\<lparr>tree_at := (tree_at e)(p \<mapsto> Dir [] [])\<rparr>))"

text \<open>\<^verbatim>\<open>table[key]\<close> on a TOML table.\<close>

definition lookup :: "toml_table \<Rightarrow> string \<Rightarrow> py_error + string" where
  "lookup t k = (case t k of None \<Rightarrow> Inl (KeyError k) | Some v \<Rightarrow> Inr v)"

section \<open>The data model of \<^verbatim>\<open>project.py\<close>\<close>

text \<open>
  The three dataclasses and the attributes of \<^verbatim>\<open>Project\<close>. Field names are those of the
  source, except where two classes share one: \<^verbatim>\<open>LibInfo.name\<close> is \<open>lib_name\<close> and
  \<^verbatim>\<open>IpCoreInfo.root_dir\<close> is \<open>ip_root_dir\<close>.
\<close>

record FileInfo =
  filename :: string
  ext_name :: string
  fullpath :: string

record LibInfo =
  lib_name :: string
  full_path :: string

record IpCoreInfo =
  name :: string
  ip_root_dir :: string
  rtl_files :: "(string, FileInfo) dict"

record Project =
  language :: string
  files :: "(string, FileInfo) dict"
  test_bench :: "(string, FileInfo) dict"
  ip_cores :: "(string, IpCoreInfo) dict"
  libs :: "LibInfo list"
  including_dir :: "string list"
  root_dir :: string
  top_module :: string
  build_out_dir :: string

section \<open>File discovery and the module registry\<close>

text \<open>The lines the resolver prints before it raises a bare \<open>Exception\<close>.\<close>

definition red :: string where
  "red = ''  '' @ [CHR 0x1B] @ ''[1;31m''"

definition msg_module_exists :: "string \<Rightarrow> string" where
  "msg_module_exists n = red @ ''Module '' @ [dquote] @ n @ [dquote] @ '' is already exist.''"

definition msg_top_module :: "string \<Rightarrow> string" where
  "msg_top_module n = red @ ''Top module '' @ [dquote] @ n @ [dquote] @ '' is not exist.''"

definition msg_ip_top_module :: "string \<Rightarrow> string" where
  "msg_ip_top_module n =
     red @ ''Cannot find top module '' @ [dquote] @ n @ [dquote] @ '' in IP core '' @
       [dquote] @ n @ [dquote] @ ''.''"

text \<open>
  \<^verbatim>\<open>_append_file_to_map_parteval(target_map)\<close> returns the closure \<^verbatim>\<open>impl\<close>, which
  mutates \<open>target_map\<close>. The model passes the map as the state: the three arguments of
  \<^verbatim>\<open>impl\<close>, then the map, giving the updated map or the exception.
\<close>

definition append_file_to_map_parteval ::
  "string \<Rightarrow> string \<Rightarrow> string \<Rightarrow> (string, FileInfo) dict \<Rightarrow> py_error + (string, FileInfo) dict" where
  "append_file_to_map_parteval fname filepath extname target_map =
     (let info = \<lparr>filename = fname, ext_name = extname, fullpath = filepath\<rparr>
      in if dict_in (filename info) target_map
         then Inl (Exception (msg_module_exists (filename info)))
         else Inr (AList.update (filename info) info target_map))"

text \<open>
  \<^verbatim>\<open>_file_lists(dir, pattern, cont)\<close>. The regular expression is compiled from
  \<^verbatim>\<open>'\\./' + pattern\<close> first; then the two nested loops of the walk call \<open>cont\<close> on every
  file whose joined path, backslashes replaced, the expression matches at its start.
  \<open>cont\<close> is a state transformer that may raise, \<open>acc\<close> its state.
\<close>

fun file_lists_files ::
  "env \<Rightarrow> (string \<Rightarrow> bool) \<Rightarrow> (string \<Rightarrow> string \<Rightarrow> string \<Rightarrow> 's \<Rightarrow> py_error + 's) \<Rightarrow>
     string \<Rightarrow> string list \<Rightarrow> 's \<Rightarrow> py_error + 's" where
  "file_lists_files e regexp cont path [] acc = Inr acc"
| "file_lists_files e regexp cont path (file # rest) acc =
     (let fullpath' = os_path_join path file;
          fullpath_text = replace_backslash fullpath'
      in if regexp fullpath_text
         then
           (let ext_name' = snd (os_path_splitext fullpath');
                file_name = slice_to_neg (os_path_basename fullpath') (length ext_name')
            in bind (cont file_name (os_path_abspath e fullpath') ext_name' acc)
                 (\<lambda>acc'. file_lists_files e regexp cont path rest acc'))
         else file_lists_files e regexp cont path rest acc)"

fun file_lists_walk ::
  "env \<Rightarrow> (string \<Rightarrow> bool) \<Rightarrow> (string \<Rightarrow> string \<Rightarrow> string \<Rightarrow> 's \<Rightarrow> py_error + 's) \<Rightarrow>
     (string \<times> string list) list \<Rightarrow> 's \<Rightarrow> py_error + 's" where
  "file_lists_walk e regexp cont [] acc = Inr acc"
| "file_lists_walk e regexp cont ((path, fs) # rest) acc =
     bind (file_lists_files e regexp cont path fs acc)
       (\<lambda>acc'. file_lists_walk e regexp cont rest acc')"

definition file_lists ::
  "env \<Rightarrow> string \<Rightarrow> string \<Rightarrow> (string \<Rightarrow> string \<Rightarrow> string \<Rightarrow> 's \<Rightarrow> py_error + 's) \<Rightarrow> 's \<Rightarrow>
     py_error + 's" where
  "file_lists e dir pattern cont acc =
     bind (re_compile e ([backslash] @ ''./'' @ pattern))
       (\<lambda>regexp. file_lists_walk e regexp cont (os_walk e dir) acc)"

section \<open>Project construction\<close>

text \<open>
  \<^verbatim>\<open>_check_top_module\<close>: the top module must be a key of the primary registry.
\<close>

definition check_top_module :: "string \<Rightarrow> (string, FileInfo) dict \<Rightarrow> py_error + unit" where
  "check_top_module top_module' files' =
     (if \<not> dict_in top_module' files' then Inl (Exception (msg_top_module top_module'))
      else Inr ())"

text \<open>
  \<^verbatim>\<open>_load_project_properties\<close> sets \<open>language\<close>, \<open>top_module\<close>, \<open>root_dir\<close> and \<open>files\<close> of
  the object under construction; the model returns the four values, in this order.
\<close>

definition load_project_properties ::
  "env \<Rightarrow> toml_table \<Rightarrow> py_error + (string \<times> string \<times> string \<times> (string, FileInfo) dict)" where
  "load_project_properties e toml_prj_dat =
     bind (lookup toml_prj_dat ''language'') (\<lambda>language'.
     bind (lookup toml_prj_dat ''top_module'') (\<lambda>top_module'.
     bind (lookup toml_prj_dat ''rtl_dir'') (\<lambda>rtl_dir.
     let root_dir' = os_path_abspath e rtl_dir in
     bind (lookup toml_prj_dat ''rtl_dir_pattern'') (\<lambda>rtl_dir_pattern.
     bind (file_lists e rtl_dir rtl_dir_pattern append_file_to_map_parteval []) (\<lambda>files'.
     bind (check_top_module top_module' files') (\<lambda>_.
     Inr (language', top_module', root_dir', files')))))))"

text \<open>
  \<^verbatim>\<open>_load_testbench_files\<close>: the loop over \<^verbatim>\<open>self.files.items()\<close>, \<open>test_bench\<close> the
  dictionary it fills. The template is looked up inside the loop, as in the source.
\<close>

fun load_testbench_loop ::
  "env \<Rightarrow> toml_table \<Rightarrow> (string, FileInfo) dict \<Rightarrow> (string \<times> FileInfo) list \<Rightarrow>
     (string, FileInfo) dict \<Rightarrow> py_error + (string, FileInfo) dict" where
  "load_testbench_loop e toml_prj_dat test_bench_files [] test_bench' = Inr test_bench'"
| "load_testbench_loop e toml_prj_dat test_bench_files ((module_name, file_info) # rest) test_bench' =
     bind (lookup toml_prj_dat ''tb_file_fmt'') (\<lambda>tb_fmt.
     bind (str_format e tb_fmt module_name) (\<lambda>tb_module.
     (case map_of test_bench_files tb_module of
        Some tb_info \<Rightarrow>
          load_testbench_loop e toml_prj_dat test_bench_files rest
            (AList.update module_name tb_info test_bench')
      | None \<Rightarrow> load_testbench_loop e toml_prj_dat test_bench_files rest test_bench')))"

definition load_testbench_files ::
  "env \<Rightarrow> (string, FileInfo) dict \<Rightarrow> toml_table \<Rightarrow> (string, FileInfo) dict \<Rightarrow>
     py_error + (string, FileInfo) dict" where
  "load_testbench_files e files' toml_prj_dat test_bench_files =
     load_testbench_loop e toml_prj_dat test_bench_files files' []"

text \<open>
  \<^verbatim>\<open>_load_ip_cores\<close>. \<open>load_ip_core\<close> is the body of the loop up to the construction of
  the \<open>IpCoreInfo\<close> (lines 192 to 211); the loop stores it under the core's name with
  \<^verbatim>\<open>ip_cores.update\<close>, without looking whether the name is already there.
\<close>

definition load_ip_core :: "env \<Rightarrow> toml_table \<Rightarrow> py_error + IpCoreInfo" where
  "load_ip_core e ip' =
     bind (lookup ip' ''name'') (\<lambda>ip_name.
     bind (lookup ip' ''rtl_dir'') (\<lambda>rtl_dir.
     bind (lookup ip' ''rtl_dir_pattern'') (\<lambda>rtl_dir_pattern.
     bind (file_lists e rtl_dir rtl_dir_pattern append_file_to_map_parteval []) (\<lambda>ip_files.
     if \<not> dict_in ip_name ip_files then Inl (Exception (msg_ip_top_module ip_name))
     else Inr \<lparr>name = ip_name, ip_root_dir = os_path_abspath e rtl_dir,
                rtl_files = ip_files\<rparr>))))"

fun load_ip_cores_loop ::
  "env \<Rightarrow> toml_table list \<Rightarrow> (string, IpCoreInfo) dict \<Rightarrow> py_error + (string, IpCoreInfo) dict" where
  "load_ip_cores_loop e [] ip_cores' = Inr ip_cores'"
| "load_ip_cores_loop e (ip' # rest) ip_cores' =
     bind (load_ip_core e ip') (\<lambda>ip_info.
     load_ip_cores_loop e rest (AList.update (name ip_info) ip_info ip_cores'))"

definition load_ip_cores :: "env \<Rightarrow> toml_table list \<Rightarrow> py_error + (string, IpCoreInfo) dict" where
  "load_ip_cores e toml_ip_dat = load_ip_cores_loop e toml_ip_dat []"

text \<open>\<^verbatim>\<open>_load_spec_file\<close>: the libraries and the extra include directories, each in file order.\<close>

fun load_libs :: "env \<Rightarrow> toml_table list \<Rightarrow> py_error + LibInfo list" where
  "load_libs e [] = Inr []"
| "load_libs e (lib' # rest) =
     bind (lookup lib' ''name'') (\<lambda>n.
     bind (lookup lib' ''path'') (\<lambda>p.
     bind (load_libs e rest) (\<lambda>more.
     Inr (\<lparr>lib_name = n, full_path = os_path_abspath e p\<rparr> # more))))"

definition load_spec_file :: "env \<Rightarrow> string \<Rightarrow> py_error + (LibInfo list \<times> string list)" where
  "load_spec_file e file =
     (let full_path' = os_path_abspath e file in
      bind (rtoml_load e full_path') (\<lambda>toml_dat.
      bind (case lib toml_dat of None \<Rightarrow> Inr [] | Some toml_lib_dat \<Rightarrow> load_libs e toml_lib_dat)
        (\<lambda>libs'.
      let including_dir' =
            (case ext_including_dir toml_dat of
               None \<Rightarrow> []
             | Some dirs \<Rightarrow> map (os_path_abspath e) dirs)
      in Inr (libs', including_dir'))))"

text \<open>
  \<^verbatim>\<open>Project.__init__\<close>. \<open>init_body\<close> is the body of the \<^verbatim>\<open>try\<close>; the result is the
  constructed project and the environment after \<^verbatim>\<open>os.mkdir\<close>. \<open>Project_init\<close> adds the
  two handlers: a \<open>KeyError\<close> and a \<open>FileNotFoundError\<close> become an \<open>AttributeError\<close>, every
  other exception passes through.
\<close>

definition init_body :: "env \<Rightarrow> string \<Rightarrow> py_error + (Project \<times> env)" where
  "init_body e file =
     bind (rtoml_load e file) (\<lambda>toml_dat.
     bind (case project toml_dat of None \<Rightarrow> Inl (KeyError ''project'') | Some t \<Rightarrow> Inr t)
       (\<lambda>toml_prj_dat.
     bind (load_project_properties e toml_prj_dat) (\<lambda>(language', top_module', root_dir', files').
     bind (lookup toml_prj_dat ''tb_dir'') (\<lambda>tb_dir.
     bind (lookup toml_prj_dat ''tb_dir_pattern'') (\<lambda>tb_dir_pattern.
     bind (file_lists e tb_dir tb_dir_pattern append_file_to_map_parteval []) (\<lambda>test_bench_file.
     bind (load_testbench_files e files' toml_prj_dat test_bench_file) (\<lambda>test_bench'.
     bind (case ip toml_dat of None \<Rightarrow> Inr [] | Some toml_ip_dat \<Rightarrow> load_ip_cores e toml_ip_dat)
       (\<lambda>ip_cores'.
     bind (case toml_prj_dat ''spec'' of
             None \<Rightarrow> Inr ([], [])
           | Some spec_file \<Rightarrow> load_spec_file e spec_file) (\<lambda>(libs', ext_including).
     let including_dir' =
           [root_dir'] @ map (\<lambda>(ip_name, ip_core). ip_root_dir ip_core) ip_cores' @ ext_including
     in
     bind (lookup toml_prj_dat ''build_dir'') (\<lambda>build_dir.
     let build_out_dir' = os_path_abspath e build_dir @ os_sep in
     bind (if \<not> os_path_exists e build_out_dir' then os_mkdir e build_out_dir' else Inr e)
       (\<lambda>e'.
     Inr (\<lparr>language = language', files = files', test_bench = test_bench',
           ip_cores = ip_cores', libs = libs', including_dir = including_dir',
           root_dir = root_dir', top_module = top_module',
           build_out_dir = build_out_dir'\<rparr>, e'))))))))))))"

definition Project_init :: "env \<Rightarrow> string \<Rightarrow> py_error + (Project \<times> env)" where
  "Project_init e file =
     (case init_body e file of
        Inl (KeyError k) \<Rightarrow> Inl (AttributeError ''Project file was missing some items.'')
      | Inl (FileNotFoundError f) \<Rightarrow> Inl (AttributeError (''Missing file '' @ f @ ''.''))
      | Inl err \<Rightarrow> Inl err
      | Inr r \<Rightarrow> Inr r)"

section \<open>A fragment of the library, for concrete runs\<close>

text \<open>
  The theorems below hold for every environment. To run the resolver on concrete
  inputs, this section gives \<^verbatim>\<open>re\<close> and \<^verbatim>\<open>str.format\<close> on a fragment of their input
  languages; outside the fragment the functions answer \<open>NotModelled\<close>.

  Regular expressions: a sequence of atoms, each optionally followed by \<^verbatim>\<open>*\<close>. An atom
  is an ordinary character, a backslash followed by a character that is no ASCII letter
  or digit (that character, literally), or \<^verbatim>\<open>.\<close> (any character but a newline).
  \<^verbatim>\<open>regexp.match(text)\<close> asks for a match at the start of the text: the text may go
  on after the match.
\<close>

datatype re_atom = Lit char | AnyChar

datatype re_token = TAtom re_atom | TStar

definition ascii_alnum :: "char \<Rightarrow> bool" where
  "ascii_alnum c =
     (c \<in> set ''abcdefghijklmnopqrstuvwxyzABCDEFGHIJKLMNOPQRSTUVWXYZ0123456789'')"

definition re_special :: "char \<Rightarrow> bool" where
  "re_special c = (c \<in> set ''.^$*+?{}[]|()'' \<or> c = backslash)"

fun re_lex :: "string \<Rightarrow> re_token list option" where
  "re_lex [] = Some []"
| "re_lex (c # cs) =
     (if c = backslash then
        (case cs of
           [] \<Rightarrow> None
         | x # r \<Rightarrow> if ascii_alnum x then None else map_option (Cons (TAtom (Lit x))) (re_lex r))
      else if c = CHR ''.'' then map_option (Cons (TAtom AnyChar)) (re_lex cs)
      else if c = CHR ''*'' then map_option (Cons TStar) (re_lex cs)
      else if re_special c then None
      else map_option (Cons (TAtom (Lit c))) (re_lex cs))"

fun re_group :: "re_token list \<Rightarrow> (re_atom \<times> bool) list option" where
  "re_group [] = Some []"
| "re_group (TStar # r) = None"
| "re_group (TAtom a # TStar # r) = map_option (Cons (a, True)) (re_group r)"
| "re_group (TAtom a # r) = map_option (Cons (a, False)) (re_group r)"

fun atom_matches :: "re_atom \<Rightarrow> char \<Rightarrow> bool" where
  "atom_matches (Lit x) c = (c = x)"
| "atom_matches AnyChar c = (c \<noteq> CHR 0x0A)"

fun re_match_here :: "(re_atom \<times> bool) list \<Rightarrow> string \<Rightarrow> bool" where
  "re_match_here [] s = True"
| "re_match_here ((a, False) # r) [] = False"
| "re_match_here ((a, False) # r) (c # s) = (atom_matches a c \<and> re_match_here r s)"
| "re_match_here ((a, True) # r) [] = re_match_here r []"
| "re_match_here ((a, True) # r) (c # s) =
     (re_match_here r (c # s) \<or> (atom_matches a c \<and> re_match_here ((a, True) # r) s))"

definition re_fragment :: "string \<Rightarrow> py_error + (string \<Rightarrow> bool)" where
  "re_fragment pattern =
     (case re_lex pattern of
        None \<Rightarrow> Inl NotModelled
      | Some toks \<Rightarrow>
          (case re_group toks of
             None \<Rightarrow> Inl NotModelled
           | Some items \<Rightarrow> Inr (re_match_here items)))"

text \<open>
  \<^verbatim>\<open>template.format(arg)\<close> with one positional argument, on templates made of ordinary
  characters, the doubled braces \<^verbatim>\<open>{{\<close> and \<^verbatim>\<open>}}\<close>, and one automatic field \<^verbatim>\<open>{}\<close>.
  \<open>used\<close> says that the automatic field has been consumed.
\<close>

fun format_loop :: "string \<Rightarrow> string \<Rightarrow> bool \<Rightarrow> py_error + string" where
  "format_loop [] arg used = Inr []"
| "format_loop (c # cs) arg used =
     (if c = CHR ''{'' then
        (case cs of
           [] \<Rightarrow> Inl NotModelled
         | x # r \<Rightarrow>
             if x = CHR ''}'' \<and> \<not> used then bind (format_loop r arg True) (\<lambda>t. Inr (arg @ t))
             else if x = CHR ''{'' then bind (format_loop r arg used) (\<lambda>t. Inr (CHR ''{'' # t))
             else Inl NotModelled)
      else if c = CHR ''}'' then
        (case cs of
           [] \<Rightarrow> Inl NotModelled
         | x # r \<Rightarrow>
             if x = CHR ''}'' then bind (format_loop r arg used) (\<lambda>t. Inr (CHR ''}'' # t))
             else Inl NotModelled)
      else bind (format_loop cs arg used) (\<lambda>t. Inr (c # t)))"

definition format_fragment :: "string \<Rightarrow> string \<Rightarrow> py_error + string" where
  "format_fragment template arg = format_loop template arg False"

text \<open>The continuation that records what the discoverer yields, in order.\<close>

definition collect ::
  "string \<Rightarrow> string \<Rightarrow> string \<Rightarrow> (string \<times> string \<times> string) list \<Rightarrow>
     py_error + (string \<times> string \<times> string) list" where
  "collect file_name filepath extname acc = Inr (acc @ [(file_name, filepath, extname)])"

section \<open>Auxiliary notions for the statements\<close>

text \<open>
  The sequence of calls the discoverer makes, as data: \<open>entry_of\<close> is the triple passed
  to the continuation for one file, \<open>matching\<close> the files of one directory that the
  expression accepts, \<open>discovered\<close> all triples of a walk in order, and \<open>feed\<close> runs a
  continuation over such a sequence. \<open>info_of\<close> is the registry entry made from a triple.
\<close>

definition entry_of :: "env \<Rightarrow> string \<Rightarrow> string \<Rightarrow> string \<times> string \<times> string" where
  "entry_of e path file =
     (let fullpath' = os_path_join path file;
          ext_name' = snd (os_path_splitext fullpath')
      in (slice_to_neg (os_path_basename fullpath') (length ext_name'),
          os_path_abspath e fullpath', ext_name'))"

definition matching :: "(string \<Rightarrow> bool) \<Rightarrow> string \<Rightarrow> string list \<Rightarrow> string list" where
  "matching regexp path fs =
     filter (\<lambda>file. regexp (replace_backslash (os_path_join path file))) fs"

definition discovered :: "env \<Rightarrow> (string \<Rightarrow> bool) \<Rightarrow> string \<Rightarrow> (string \<times> string \<times> string) list" where
  "discovered e regexp dir =
     concat (map (\<lambda>(path, fs). map (entry_of e path) (matching regexp path fs)) (os_walk e dir))"

fun feed ::
  "(string \<Rightarrow> string \<Rightarrow> string \<Rightarrow> 's \<Rightarrow> py_error + 's) \<Rightarrow> (string \<times> string \<times> string) list \<Rightarrow> 's \<Rightarrow>
     py_error + 's" where
  "feed cont [] acc = Inr acc"
| "feed cont ((n, p, x) # rest) acc = bind (cont n p x acc) (\<lambda>acc'. feed cont rest acc')"

definition info_of :: "string \<times> string \<times> string \<Rightarrow> string \<times> FileInfo" where
  "info_of = (\<lambda>(n, p, x). (n, \<lparr>filename = n, ext_name = x, fullpath = p\<rparr>))"

text \<open>
  The reading of a pattern that the specification describes, for comparison with the
  code: a shell glob (\<^verbatim>\<open>*\<close> any run of characters, \<^verbatim>\<open>?\<close> any one character, every
  other character itself) that has to match the whole text.
\<close>

fun spec_glob_match :: "string \<Rightarrow> string \<Rightarrow> bool" where
  "spec_glob_match [] [] = True"
| "spec_glob_match [] (x # r) = False"
| "spec_glob_match (c # cs) [] = (c = CHR ''*'' \<and> spec_glob_match cs [])"
| "spec_glob_match (c # cs) (x # r) =
     (if c = CHR ''*'' then spec_glob_match cs (x # r) \<or> spec_glob_match (c # cs) r
      else (c = CHR ''?'' \<or> c = x) \<and> spec_glob_match cs r)"

section \<open>Concrete environments\<close>

text \<open>
  All of them run in the working directory \<^verbatim>\<open>/w\<close> with the library fragments above and
  an \<^verbatim>\<open>os.mkdir\<close> that never fails, unless said otherwise.
\<close>

definition env_of :: "(string \<rightharpoonup> dirtree) \<Rightarrow> (string \<rightharpoonup> file_content) \<Rightarrow> env" where
  "env_of trees fs =
     \<lparr>cwd = ''/w'', tree_at = trees, file_at = fs, re_compile = re_fragment,
      str_format = format_fragment, mkdir_error = Map.empty\<rparr>"

text \<open>A directory with one file that has no suffix, and one with a file \<^verbatim>\<open>a.vhd\<close>.\<close>

definition env_makefile :: env where
  "env_makefile = env_of [''./r'' \<mapsto> Dir [] [''Makefile'']] Map.empty"

definition env_vhd :: env where
  "env_vhd = env_of [''.'' \<mapsto> Dir [] [''a.vhd'']] Map.empty"

text \<open>
  A project with the modules \<^verbatim>\<open>a\<close> and \<^verbatim>\<open>b\<close>, a testbench for \<^verbatim>\<open>a\<close>, the top module
  \<^verbatim>\<open>a\<close>, no IP core and no spec file; and the same project with the top module \<^verbatim>\<open>c\<close>,
  for which there is no file.
\<close>

definition prj_ok :: toml_table where
  "prj_ok = [''language'' \<mapsto> ''v'', ''top_module'' \<mapsto> ''a'', ''rtl_dir'' \<mapsto> ''./r'',
     ''rtl_dir_pattern'' \<mapsto> ''r/.*'', ''tb_dir'' \<mapsto> ''./t'', ''tb_dir_pattern'' \<mapsto> ''t/.*'',
     ''tb_file_fmt'' \<mapsto> ''{}_tb'', ''build_dir'' \<mapsto> ''o'']"

definition doc_of :: "toml_table \<Rightarrow> toml_table list option \<Rightarrow> toml_doc" where
  "doc_of prj ips = \<lparr>project = Some prj, ip = ips, lib = None, ext_including_dir = None\<rparr>"

definition trees_ok :: "string \<rightharpoonup> dirtree" where
  "trees_ok = [''./r'' \<mapsto> Dir [] [''a.v'', ''b.v''], ''./t'' \<mapsto> Dir [] [''a_tb.v'']]"

definition env_ok :: env where
  "env_ok = env_of trees_ok [''p.toml'' \<mapsto> TomlFile (doc_of prj_ok None)]"

definition env_no_top :: env where
  "env_no_top =
     env_of trees_ok [''p.toml'' \<mapsto> TomlFile (doc_of (prj_ok(''top_module'' \<mapsto> ''c'')) None)]"

text \<open>
  A manifest whose top module is the empty string, over an RTL directory that holds the
  one file \<^verbatim>\<open>Makefile\<close>.
\<close>

definition env_empty_top :: env where
  "env_empty_top =
     env_of [''./r'' \<mapsto> Dir [] [''Makefile''], ''./t'' \<mapsto> Dir [] []]
       [''p.toml'' \<mapsto> TomlFile (doc_of (prj_ok(''top_module'' \<mapsto> [])) None)]"

text \<open>The primary registry and the testbench files that discovery finds for this project.\<close>

definition files_ok :: "(string, FileInfo) dict" where
  "files_ok =
     [(''a'', \<lparr>filename = ''a'', ext_name = ''.v'', fullpath = ''/w/r/a.v''\<rparr>),
      (''b'', \<lparr>filename = ''b'', ext_name = ''.v'', fullpath = ''/w/r/b.v''\<rparr>)]"

definition tb_files_ok :: "(string, FileInfo) dict" where
  "tb_files_ok =
     [(''a_tb'', \<lparr>filename = ''a_tb'', ext_name = ''.v'', fullpath = ''/w/t/a_tb.v''\<rparr>)]"

text \<open>
  What the loop of \<^verbatim>\<open>_load_ip_cores\<close> does to its dictionary once every core has been
  resolved: the cores are stored under their names, one after the other.
\<close>

definition store_all :: "IpCoreInfo list \<Rightarrow> (string, IpCoreInfo) dict \<Rightarrow> (string, IpCoreInfo) dict" where
  "store_all infos acc = fold (\<lambda>i a. AList.update (name i) i a) infos acc"

text \<open>
  IP cores: the directories \<^verbatim>\<open>./i\<close> and \<^verbatim>\<open>./j\<close> both hold a module \<^verbatim>\<open>f\<close>, the directory
  \<^verbatim>\<open>./k\<close> only \<^verbatim>\<open>f_ctrl\<close>. The first manifest declares two cores, both named \<^verbatim>\<open>f\<close>.
\<close>

definition ip_decl :: "string \<Rightarrow> string \<Rightarrow> string \<Rightarrow> toml_table" where
  "ip_decl n d pat = [''name'' \<mapsto> n, ''rtl_dir'' \<mapsto> d, ''rtl_dir_pattern'' \<mapsto> pat]"

definition trees_ip :: "string \<rightharpoonup> dirtree" where
  "trees_ip = trees_ok(''./i'' \<mapsto> Dir [] [''f.v''], ''./j'' \<mapsto> Dir [] [''f.v'', ''g.v''],
     ''./k'' \<mapsto> Dir [] [''f_ctrl.v''])"

definition decls_same_name :: "toml_table list" where
  "decls_same_name = [ip_decl ''f'' ''./i'' ''i/.*'', ip_decl ''f'' ''./j'' ''j/.*'']"

definition env_ip_same_name :: env where
  "env_ip_same_name =
     env_of trees_ip [''p.toml'' \<mapsto> TomlFile (doc_of prj_ok (Some decls_same_name))]"

definition core_i :: IpCoreInfo where
  "core_i = \<lparr>name = ''f'', ip_root_dir = ''/w/i'',
     rtl_files = [(''f'', \<lparr>filename = ''f'', ext_name = ''.v'', fullpath = ''/w/i/f.v''\<rparr>)]\<rparr>"

definition core_j :: IpCoreInfo where
  "core_j = \<lparr>name = ''f'', ip_root_dir = ''/w/j'',
     rtl_files = [(''f'', \<lparr>filename = ''f'', ext_name = ''.v'', fullpath = ''/w/j/f.v''\<rparr>),
                  (''g'', \<lparr>filename = ''g'', ext_name = ''.v'', fullpath = ''/w/j/g.v''\<rparr>)]\<rparr>"

text \<open>
  A manifest with two cores of different names and a spec file that declares one library
  and two extra include directories; and a manifest whose second core \<^verbatim>\<open>f\<close> is rooted
  at \<^verbatim>\<open>./k\<close>, where there is no module \<^verbatim>\<open>f\<close>.
\<close>

definition decls_two :: "toml_table list" where
  "decls_two = [ip_decl ''f'' ''./i'' ''i/.*'', ip_decl ''g'' ''./j'' ''j/.*'']"

definition spec_doc :: toml_doc where
  "spec_doc = \<lparr>project = None, ip = None,
     lib = Some [[''name'' \<mapsto> ''l'', ''path'' \<mapsto> ''lib'']],
     ext_including_dir = Some [''x'', ''/y'']\<rparr>"

definition env_ip_spec :: env where
  "env_ip_spec =
     env_of trees_ip
       [''p.toml'' \<mapsto> TomlFile (doc_of (prj_ok(''spec'' \<mapsto> ''s.toml'')) (Some decls_two)),
        ''/w/s.toml'' \<mapsto> TomlFile spec_doc]"

definition env_ip_no_top :: env where
  "env_ip_no_top =
     env_of trees_ip
       [''p.toml'' \<mapsto> TomlFile (doc_of prj_ok
          (Some ([ip_decl ''g'' ''./j'' ''j/.*''] @ ip_decl ''f'' ''./k'' ''k/.*'' # [])))]"

definition core_g :: IpCoreInfo where
  "core_g = \<lparr>name = ''g'', ip_root_dir = ''/w/j'',
     rtl_files = [(''f'', \<lparr>filename = ''f'', ext_name = ''.v'', fullpath = ''/w/j/f.v''\<rparr>),
                  (''g'', \<lparr>filename = ''g'', ext_name = ''.v'', fullpath = ''/w/j/g.v''\<rparr>)]\<rparr>"

text \<open>
  The first project again, with the build directory \<^verbatim>\<open>/w/o/\<close> already on disk and an
  \<^verbatim>\<open>os.mkdir\<close> that would fail on every path.
\<close>

definition env_build_exists :: env where
  "env_build_exists =
     (env_of (trees_ok(''/w/o/'' \<mapsto> Dir [] [])) [''p.toml'' \<mapsto> TomlFile (doc_of prj_ok None)])
       \<lparr>mkdir_error := (\<lambda>p. Some (OtherError ''FileExistsError''))\<rparr>"




text \<open>
  The first project with two files of one name: \<^verbatim>\<open>a.v\<close> and \<^verbatim>\<open>s/a.sv\<close> in the RTL
  directory, \<^verbatim>\<open>a_tb.v\<close> and \<^verbatim>\<open>a_tb.sv\<close> in the testbench directory, \<^verbatim>\<open>f.v\<close> and
  \<^verbatim>\<open>f.sv\<close> in the directory of an IP core.
\<close>

definition env_dup_rtl :: env where
  "env_dup_rtl =
     env_of (trees_ok(''./r'' \<mapsto> Dir [(''s'', Dir [] [''a.sv''])] [''a.v'']))
       [''p.toml'' \<mapsto> TomlFile (doc_of prj_ok None)]"

definition env_dup_tb :: env where
  "env_dup_tb =
     env_of (trees_ok(''./t'' \<mapsto> Dir [] [''a_tb.v'', ''a_tb.sv'']))
       [''p.toml'' \<mapsto> TomlFile (doc_of prj_ok None)]"

definition env_dup_ip :: env where
  "env_dup_ip =
     env_of (trees_ok(''./i'' \<mapsto> Dir [] [''f.v'', ''f.sv'']))
       [''p.toml'' \<mapsto> TomlFile (doc_of prj_ok (Some ([] @ ip_decl ''f'' ''./i'' ''i/.*'' # [])))]"

section \<open>Properties of discovery and registration\<close>

lemma bind_Inl [simp]: "bind (Inl err) f = Inl err"
  by (simp add: bind_def)

lemma bind_Inr [simp]: "bind (Inr x) f = f x"
  by (simp add: bind_def)

lemma bind_eq_Inr: "bind m f = Inr y \<longleftrightarrow> (\<exists>x. m = Inr x \<and> f x = Inr y)"
  by (cases m) simp_all

lemma bind_eq_Inl: "bind m f = Inl err \<longleftrightarrow> (m = Inl err \<or> (\<exists>x. m = Inr x \<and> f x = Inl err))"
  by (cases m) simp_all

lemma feed_append: "feed cont (xs @ ys) acc = bind (feed cont xs acc) (\<lambda>acc'. feed cont ys acc')"
proof (induction xs arbitrary: acc)
  case Nil
  show ?case by simp
next
  case (Cons a xs)
  obtain n p x where a: "a = (n, p, x)" by (cases a)
  show ?case
    by (cases "cont n p x acc") (simp_all add: a Cons.IH)
qed

lemma matching_Nil [simp]: "matching regexp path [] = []"
  by (simp add: matching_def)

lemma matching_Cons:
  "matching regexp path (f # fs) =
     (if regexp (replace_backslash (os_path_join path f)) then f # matching regexp path fs
      else matching regexp path fs)"
  by (simp add: matching_def)

lemma file_lists_files_feed:
  "file_lists_files e regexp cont path fs acc =
     feed cont (map (entry_of e path) (matching regexp path fs)) acc"
proof (induction fs arbitrary: acc)
  case Nil
  show ?case by simp
next
  case (Cons f fs)
  have IH: "file_lists_files e regexp cont path fs =
      feed cont (map (entry_of e path) (matching regexp path fs))"
    by (rule ext) (rule Cons.IH)
  define x where "x = snd (os_path_splitext (os_path_join path f))"
  define n where "n = slice_to_neg (os_path_basename (os_path_join path f)) (length x)"
  define p where "p = os_path_abspath e (os_path_join path f)"
  have ent: "entry_of e path f = (n, p, x)"
    by (simp add: entry_of_def Let_def n_def p_def x_def)
  show ?case
  proof (cases "regexp (replace_backslash (os_path_join path f))")
    case True
    have "file_lists_files e regexp cont path (f # fs) acc =
        bind (cont n p x acc) (file_lists_files e regexp cont path fs)"
      using True by (simp add: Let_def n_def p_def x_def)
    then show ?thesis
      using True by (simp add: IH matching_Cons ent)
  next
    case False
    then show ?thesis
      by (simp add: IH matching_Cons)
  qed
qed

lemma file_lists_walk_feed:
  "file_lists_walk e regexp cont w acc =
     feed cont (concat (map (\<lambda>(path, fs). map (entry_of e path) (matching regexp path fs)) w)) acc"
proof (induction w arbitrary: acc)
  case Nil
  show ?case by simp
next
  case (Cons a w)
  obtain path fs where a: "a = (path, fs)" by (cases a)
  have IH: "file_lists_walk e regexp cont w =
      feed cont (concat (map (\<lambda>(path, fs). map (entry_of e path) (matching regexp path fs)) w))"
    by (rule ext) (rule Cons.IH)
  show ?case
    by (simp add: a feed_append file_lists_files_feed IH)
qed

lemma file_lists_feed:
  "file_lists e dir pattern cont acc =
     bind (re_compile e ([backslash] @ ''./'' @ pattern))
       (\<lambda>regexp. feed cont (discovered e regexp dir) acc)"
  by (simp add: file_lists_def discovered_def file_lists_walk_feed)

lemma feed_collect: "feed collect es acc = Inr (acc @ es)"
proof (induction es arbitrary: acc)
  case Nil
  show ?case by simp
next
  case (Cons a es)
  obtain n p x where a: "a = (n, p, x)" by (cases a)
  have step: "collect n p x acc = Inr (acc @ [(n, p, x)])"
    by (simp add: collect_def)
  show ?case by (simp add: a step Cons.IH)
qed

lemma update_fresh: "k \<notin> fst ` set al \<Longrightarrow> AList.update k v al = al @ [(k, v)]"
  by (induction al) auto

lemma append_file_fresh:
  "n \<notin> fst ` set m \<Longrightarrow>
     append_file_to_map_parteval n p x m = Inr (m @ [info_of (n, p, x)])"
  by (simp add: append_file_to_map_parteval_def dict_in_def info_of_def update_fresh)

lemma append_file_dup:
  "n \<in> fst ` set m \<Longrightarrow>
     append_file_to_map_parteval n p x m = Inl (Exception (msg_module_exists n))"
  by (simp add: append_file_to_map_parteval_def dict_in_def)

lemma fst_info_of [simp]: "fst (info_of a) = fst a"
  by (cases a) (simp add: info_of_def)

lemma feed_register_ok:
  "distinct (map fst es) \<Longrightarrow> fst ` set es \<inter> fst ` set m = {} \<Longrightarrow>
     feed append_file_to_map_parteval es m = Inr (m @ map info_of es)"
proof (induction es arbitrary: m)
  case Nil
  show ?case by simp
next
  case (Cons a es)
  obtain n p x where a: "a = (n, p, x)" by (cases a)
  have fresh: "n \<notin> fst ` set m"
    using Cons.prems(2) by (auto simp: a)
  have d: "distinct (map fst es)" and nn: "n \<notin> fst ` set es"
    using Cons.prems(1) by (auto simp: a)
  have disj: "fst ` set es \<inter> fst ` set (m @ [info_of (n, p, x)]) = {}"
    using Cons.prems(2) nn by (auto simp: a)
  show ?case
    using Cons.IH [OF d disj] by (simp add: a append_file_fresh [OF fresh])
qed

lemma feed_register_dup:
  "\<not> (distinct (map fst es) \<and> fst ` set es \<inter> fst ` set m = {}) \<Longrightarrow>
     \<exists>n. n \<in> fst ` set es \<and> (n \<in> fst ` set m \<or> 2 \<le> count_list (map fst es) n) \<and>
         feed append_file_to_map_parteval es m = Inl (Exception (msg_module_exists n))"
proof (induction es arbitrary: m)
  case Nil
  then show ?case by simp
next
  case (Cons a es)
  obtain n p x where a: "a = (n, p, x)" by (cases a)
  show ?case
  proof (cases "n \<in> fst ` set m")
    case True
    then show ?thesis
      by (intro exI [of _ n]) (simp add: a append_file_dup)
  next
    case False
    let ?m = "m @ [info_of (n, p, x)]"
    have "\<not> (distinct (map fst es) \<and> fst ` set es \<inter> fst ` set ?m = {})"
      using Cons.prems False by (auto simp: a)
    from Cons.IH [OF this] obtain k where k: "k \<in> fst ` set es"
      "k \<in> fst ` set ?m \<or> 2 \<le> count_list (map fst es) k"
      "feed append_file_to_map_parteval es ?m = Inl (Exception (msg_module_exists k))"
      by blast
    have "k \<in> fst ` set m \<or> 2 \<le> count_list (map fst (a # es)) k"
    proof (cases "k = n")
      case True
      have "0 < count_list (map fst es) k"
        using k(1) count_list_0_iff [of "map fst es" k] by auto
      then show ?thesis by (simp add: a True)
    next
      case False
      then show ?thesis using k(2) by (auto simp: a)
    qed
    then show ?thesis
      using k(1,3) False by (intro exI [of _ k]) (simp add: a append_file_fresh)
  qed
qed

lemma feed_register_Inr:
  assumes "feed append_file_to_map_parteval es m = Inr m'"
  shows "distinct (map fst es) \<and> fst ` set es \<inter> fst ` set m = {} \<and> m' = m @ map info_of es"
proof (cases "distinct (map fst es) \<and> fst ` set es \<inter> fst ` set m = {}")
  case True
  then show ?thesis using assms feed_register_ok [of es m] by simp
next
  case False
  from feed_register_dup [OF this] assms show ?thesis by auto
qed


text \<open>The definitions a concrete run of the discoverer unfolds.\<close>

lemmas rtoml_defs = rtoml_load_def Path_str_def path_prefixes_def Let_def

lemmas run_defs = file_lists_def os_walk_def env_of_def re_fragment_def collect_def
  os_path_join_def replace_backslash_def backslash_def os_path_splitext_def rfind_def
  slice_to_neg_def os_path_basename_def os_path_abspath_def os_path_normpath_def Let_def
  re_special_def ascii_alnum_def

section \<open>The file discoverer\<close>

text \<open>
  Claim C6, as the code has it. When the expression compiles, the discoverer yields, in
  walk order, exactly the files for which the compiled expression \<^verbatim>\<open>'\\./' + pattern\<close>
  matches, at the start of the text (\<^verbatim>\<open>regexp.match\<close>), the path
  \<^verbatim>\<open>os.path.join(path, file)\<close> with backslashes replaced by slashes, where \<open>path\<close> is the
  directory as \<^verbatim>\<open>os.walk(dir)\<close> reports it (it starts with \<open>dir\<close> as the manifest
  writes it). The pattern is a Python regular expression, not a shell glob, and nothing
  anchors the match at the end of the path.
\<close>

theorem discoverer_yields_regex_matches:
  assumes "re_compile e ([backslash] @ ''./'' @ pattern) = Inr regexp"
  shows "\<exists>ys. file_lists e dir pattern collect [] = Inr ys \<and>
           (\<forall>t. t \<in> set ys \<longleftrightarrow>
                (\<exists>path fs f. (path, fs) \<in> set (os_walk e dir) \<and> f \<in> set fs \<and>
                   regexp (replace_backslash (os_path_join path f)) \<and> t = entry_of e path f))"
proof -
  have run: "file_lists e dir pattern collect [] = Inr (discovered e regexp dir)"
    using assms by (simp add: file_lists_feed feed_collect)
  have "t \<in> set (discovered e regexp dir) \<longleftrightarrow>
          (\<exists>path fs f. (path, fs) \<in> set (os_walk e dir) \<and> f \<in> set fs \<and>
             regexp (replace_backslash (os_path_join path f)) \<and> t = entry_of e path f)" for t
    by (auto simp: discovered_def matching_def)
  with run show ?thesis by blast
qed

theorem discoverer_yields_regex_matches_witness:
  "re_compile env_vhd ([backslash] @ ''./'' @ ''a.v'') =
     Inr (re_match_here [(Lit CHR ''.'', False), (Lit CHR ''/'', False), (Lit CHR ''a'', False),
            (AnyChar, False), (Lit CHR ''v'', False)]) \<and>
   (\<exists>ys. file_lists env_vhd ''.'' ''a.v'' collect [] = Inr ys \<and>
      entry_of env_vhd ''.'' ''a.vhd'' \<in> set ys)"
proof -
  let ?rx = "re_match_here [(Lit CHR ''.'', False), (Lit CHR ''/'', False), (Lit CHR ''a'', False),
            (AnyChar, False), (Lit CHR ''v'', False)]"
  have h: "re_compile env_vhd ([backslash] @ ''./'' @ ''a.v'') = Inr ?rx"
    by (simp add: env_vhd_def run_defs)
  have w: "(''.'', [''a.vhd'']) \<in> set (os_walk env_vhd ''.'')"
    by (simp add: env_vhd_def run_defs)
  have m: "?rx (replace_backslash (os_path_join ''.'' ''a.vhd''))"
    by (simp add: run_defs)
  from discoverer_yields_regex_matches [OF h, of "''.''"] obtain ys where
    ys: "file_lists env_vhd ''.'' ''a.v'' collect [] = Inr ys"
    and iff: "\<And>t. t \<in> set ys \<longleftrightarrow>
                (\<exists>path fs f. (path, fs) \<in> set (os_walk env_vhd ''.'') \<and> f \<in> set fs \<and>
                   ?rx (replace_backslash (os_path_join path f)) \<and> t = entry_of env_vhd path f)"
    by blast
  have "entry_of env_vhd ''.'' ''a.vhd'' \<in> set ys"
    unfolding iff using w m by (intro exI [of _ "''.''"] exI [of _ "[''a.vhd'']"] exI [of _ "''a.vhd''"]) simp
  with h ys show ?thesis by blast
qed

text \<open>
  Claim C6 as the specification states it fails: with the pattern \<^verbatim>\<open>a.v\<close> the discoverer
  yields the file \<^verbatim>\<open>./a.vhd\<close>, which the glob \<^verbatim>\<open>./a.v\<close> does not match as a whole path.
\<close>

theorem discoverer_glob_counterexample:
  "file_lists env_vhd ''.'' ''a.v'' collect [] = Inr [(''a'', ''/w/a.vhd'', ''.vhd'')] \<and>
   \<not> spec_glob_match ''./a.v'' ''./a.vhd''"
  by (simp add: env_vhd_def run_defs)

text \<open>
  Claim C7 at a file without a suffix. The extension is empty, and the name is
  \<^verbatim>\<open>basename[:-0]\<close>, the empty string, not the file name \<^verbatim>\<open>Makefile\<close>.
\<close>

theorem discoverer_no_suffix_yields_empty_name:
  "file_lists env_makefile ''./r'' ''r/.*'' collect [] = Inr [([], ''/w/r/Makefile'', [])] \<and>
   os_path_basename (os_path_join ''./r'' ''Makefile'') = ''Makefile'' \<and>
   os_path_splitext (os_path_join ''./r'' ''Makefile'') = (''./r/Makefile'', [])"
  by (simp add: env_makefile_def run_defs)

section \<open>Project construction: general facts\<close>

lemma lookup_eq_Inr: "lookup t k = Inr v \<longleftrightarrow> t k = Some v"
  by (simp add: lookup_def split: option.splits)

lemma lookup_eq_Inl: "lookup t k = Inl err \<longleftrightarrow> t k = None \<and> err = KeyError k"
  by (auto simp: lookup_def split: option.splits)

lemma lookup_Some: "t k = Some v \<Longrightarrow> lookup t k = Inr v"
  by (simp add: lookup_def)

lemma Project_init_Inr: "Project_init e file = Inr r \<longleftrightarrow> init_body e file = Inr r"
  by (auto simp: Project_init_def split: sum.splits py_error.splits)

lemma Project_init_Exception:
  "init_body e file = Inl (Exception m) \<Longrightarrow> Project_init e file = Inl (Exception m)"
  by (simp add: Project_init_def)


lemma file_lists_register:
  "re_compile e ([backslash] @ ''./'' @ pattern) = Inr regexp \<Longrightarrow>
     file_lists e dir pattern append_file_to_map_parteval [] =
       feed append_file_to_map_parteval (discovered e regexp dir) []"
  by (simp add: file_lists_feed)

lemma file_lists_register_Inr:
  assumes "file_lists e dir pattern append_file_to_map_parteval [] = Inr fs"
  shows "\<exists>regexp. re_compile e ([backslash] @ ''./'' @ pattern) = Inr regexp \<and>
           distinct (map fst (discovered e regexp dir)) \<and>
           fs = map info_of (discovered e regexp dir)"
proof -
  from assms obtain regexp where rx: "re_compile e ([backslash] @ ''./'' @ pattern) = Inr regexp"
    and fd: "feed append_file_to_map_parteval (discovered e regexp dir) [] = Inr fs"
    by (auto simp: file_lists_feed bind_eq_Inr)
  from feed_register_Inr [OF fd] rx show ?thesis by auto
qed

lemma dict_in_info_of: "dict_in n (map info_of es) \<longleftrightarrow> n \<in> fst ` set es"
  by (force simp: dict_in_def)

lemma load_project_properties_Inr:
  "load_project_properties e prj = Inr (lang, tm, rd, fs) \<longleftrightarrow>
     (\<exists>rtl pat. prj ''language'' = Some lang \<and> prj ''top_module'' = Some tm \<and>
        prj ''rtl_dir'' = Some rtl \<and> rd = os_path_abspath e rtl \<and>
        prj ''rtl_dir_pattern'' = Some pat \<and>
        file_lists e rtl pat append_file_to_map_parteval [] = Inr fs \<and> dict_in tm fs)"
  by (auto simp: load_project_properties_def bind_eq_Inr lookup_eq_Inr check_top_module_def
      Let_def split: if_splits)

lemma project_case_Inr:
  "(case t of None \<Rightarrow> Inl err | Some x \<Rightarrow> Inr x) = Inr y \<longleftrightarrow> t = Some y"
  by (cases t) auto

lemma init_body_Inr:
  "init_body e file = Inr (p, e') \<longleftrightarrow>
     (\<exists>d prj lang tm rd fs tbd tbp tbf tb cores ls ext bd.
        rtoml_load e file = Inr d \<and> project d = Some prj \<and>
        load_project_properties e prj = Inr (lang, tm, rd, fs) \<and>
        prj ''tb_dir'' = Some tbd \<and> prj ''tb_dir_pattern'' = Some tbp \<and>
        file_lists e tbd tbp append_file_to_map_parteval [] = Inr tbf \<and>
        load_testbench_files e fs prj tbf = Inr tb \<and>
        (case ip d of None \<Rightarrow> Inr [] | Some decls \<Rightarrow> load_ip_cores e decls) = Inr cores \<and>
        (case prj ''spec'' of None \<Rightarrow> Inr ([], []) | Some sf \<Rightarrow> load_spec_file e sf) =
          Inr (ls, ext) \<and>
        prj ''build_dir'' = Some bd \<and>
        (if \<not> os_path_exists e (os_path_abspath e bd @ os_sep)
         then os_mkdir e (os_path_abspath e bd @ os_sep) else Inr e) = Inr e' \<and>
        p = \<lparr>language = lang, files = fs, test_bench = tb, ip_cores = cores, libs = ls,
              including_dir = [rd] @ map (\<lambda>(ip_name, ip_core). ip_root_dir ip_core) cores @ ext,
              root_dir = rd, top_module = tm,
              build_out_dir = os_path_abspath e bd @ os_sep\<rparr>)"
  (is "_ \<longleftrightarrow> (\<exists>d prj lang tm rd fs tbd tbp tbf tb cores ls ext bd. ?Q d prj lang tm rd fs tbd tbp tbf tb cores ls ext bd)")
proof (rule iffI)
  assume "init_body e file = Inr (p, e')"
  then show "\<exists>d prj lang tm rd fs tbd tbp tbf tb cores ls ext bd. ?Q d prj lang tm rd fs tbd tbp tbf tb cores ls ext bd"
    by (simp add: init_body_def bind_eq_Inr lookup_eq_Inr Let_def project_case_Inr
        split: prod.splits split del: if_split cong: if_cong) blast
next
  assume "\<exists>d prj lang tm rd fs tbd tbp tbf tb cores ls ext bd. ?Q d prj lang tm rd fs tbd tbp tbf tb cores ls ext bd"
  then show "init_body e file = Inr (p, e')"
    by (auto simp: init_body_def lookup_Some simp del: not_None_eq split del: if_split cong: if_cong)
qed

lemmas project_defs = Project_init_def init_body_def rtoml_defs doc_of_def
  load_project_properties_def prj_ok_def trees_ok_def lookup_def
  append_file_to_map_parteval_def dict_in_def check_top_module_def
  load_testbench_files_def format_fragment_def os_path_exists_def os_mkdir_def os_sep_def
  load_ip_cores_def load_ip_core_def load_spec_file_def

lemma load_project_properties_no_top:
  assumes "prj ''language'' = Some lang" "prj ''top_module'' = Some tm"
    "prj ''rtl_dir'' = Some rtl" "prj ''rtl_dir_pattern'' = Some pat"
    "re_compile e ([backslash] @ ''./'' @ pat) = Inr regexp"
    "tm \<notin> fst ` set (discovered e regexp rtl)"
  shows "\<exists>msg. load_project_properties e prj = Inl (Exception msg) \<and>
           (distinct (map fst (discovered e regexp rtl)) \<longrightarrow> msg = msg_top_module tm)"
proof (cases "distinct (map fst (discovered e regexp rtl))")
  case True
  have "file_lists e rtl pat append_file_to_map_parteval [] =
      Inr (map info_of (discovered e regexp rtl))"
    using feed_register_ok [OF True, of "[]"] assms(5) by (simp add: file_lists_register)
  then have "load_project_properties e prj = Inl (Exception (msg_top_module tm))"
    using assms(1-4,6)
    by (simp add: load_project_properties_def lookup_Some check_top_module_def dict_in_info_of)
  then show ?thesis by simp
next
  case False
  then have "\<not> (distinct (map fst (discovered e regexp rtl)) \<and>
      fst ` set (discovered e regexp rtl) \<inter> fst ` set ([] :: (string, FileInfo) dict) = {})"
    by simp
  from feed_register_dup [OF this] obtain n where
    "feed append_file_to_map_parteval (discovered e regexp rtl) [] =
       Inl (Exception (msg_module_exists n))"
    by blast
  then have "load_project_properties e prj = Inl (Exception (msg_module_exists n))"
    using assms(1-5) by (simp add: load_project_properties_def lookup_Some file_lists_register)
  with False show ?thesis by simp
qed

lemma init_body_properties_Inl:
  "rtoml_load e file = Inr d \<Longrightarrow> project d = Some prj \<Longrightarrow>
     load_project_properties e prj = Inl err \<Longrightarrow> init_body e file = Inl err"
  by (simp add: init_body_def)

section \<open>The claims about construction\<close>

text \<open>
  The top module in general. When construction succeeds, the configured top module is a
  key of \<open>files\<close>. When the manifest gets as far as discovering the RTL files (it loads,
  has the \<^verbatim>\<open>project\<close> table with the four keys read before, and the pattern compiles) and
  no discovered file is registered under the top module, that is, none has it as the
  name the discoverer computes, construction fails with the bare \<open>Exception\<close> of a
  structural conflict: the missing-top-module message when the computed names are
  distinct, the duplicate-module one otherwise.
\<close>

theorem top_module_is_a_key_or_construction_fails:
  "(Project_init e file = Inr (p, e') \<longrightarrow>
      dict_in (top_module p) (files p) \<and>
      (\<exists>d prj. rtoml_load e file = Inr d \<and> project d = Some prj \<and>
         prj ''top_module'' = Some (top_module p))) \<and>
   (rtoml_load e file = Inr d \<and> project d = Some prj \<and> prj ''language'' = Some lang \<and>
    prj ''top_module'' = Some tm \<and> prj ''rtl_dir'' = Some rtl \<and>
    prj ''rtl_dir_pattern'' = Some pat \<and>
    re_compile e ([backslash] @ ''./'' @ pat) = Inr regexp \<and>
    tm \<notin> fst ` set (discovered e regexp rtl) \<longrightarrow>
      (\<exists>msg. Project_init e file = Inl (Exception msg) \<and>
         (distinct (map fst (discovered e regexp rtl)) \<longrightarrow> msg = msg_top_module tm)))"
proof (intro conjI impI)
  assume "Project_init e file = Inr (p, e')"
  then have "init_body e file = Inr (p, e')"
    by (simp add: Project_init_Inr)
  then obtain d prj lang tm rd fs where
    "rtoml_load e file = Inr d" "project d = Some prj"
    "load_project_properties e prj = Inr (lang, tm, rd, fs)"
    "files p = fs" "top_module p = tm"
    unfolding init_body_Inr by auto
  then show "dict_in (top_module p) (files p)"
    and "\<exists>d prj. rtoml_load e file = Inr d \<and> project d = Some prj \<and>
         prj ''top_module'' = Some (top_module p)"
    by (auto simp: load_project_properties_Inr)
next
  assume h: "rtoml_load e file = Inr d \<and> project d = Some prj \<and> prj ''language'' = Some lang \<and>
    prj ''top_module'' = Some tm \<and> prj ''rtl_dir'' = Some rtl \<and>
    prj ''rtl_dir_pattern'' = Some pat \<and>
    re_compile e ([backslash] @ ''./'' @ pat) = Inr regexp \<and>
    tm \<notin> fst ` set (discovered e regexp rtl)"
  then obtain msg where m: "load_project_properties e prj = Inl (Exception msg)"
    "distinct (map fst (discovered e regexp rtl)) \<longrightarrow> msg = msg_top_module tm"
    using load_project_properties_no_top [of prj lang tm rtl pat e regexp] by blast
  have "init_body e file = Inl (Exception msg)"
    using h m(1) by (simp add: init_body_properties_Inl)
  then have "Project_init e file = Inl (Exception msg)"
    by (rule Project_init_Exception)
  with m(2) show "\<exists>msg. Project_init e file = Inl (Exception msg) \<and>
         (distinct (map fst (discovered e regexp rtl)) \<longrightarrow> msg = msg_top_module tm)"
    by blast
qed

theorem top_module_is_a_key_or_construction_fails_witness:
  "(\<exists>p e'. Project_init env_ok ''p.toml'' = Inr (p, e') \<and> dict_in (top_module p) (files p) \<and>
      top_module p = ''a'') \<and>
   ''c'' \<notin> fst ` set (discovered env_no_top (re_match_here [(Lit CHR ''.'', False),
        (Lit CHR ''/'', False), (Lit CHR ''r'', False), (Lit CHR ''/'', False), (AnyChar, True)]) ''./r'') \<and>
   Project_init env_no_top ''p.toml'' = Inl (Exception (msg_top_module ''c''))"
proof -
  let ?rx = "re_match_here [(Lit CHR ''.'', False),
        (Lit CHR ''/'', False), (Lit CHR ''r'', False), (Lit CHR ''/'', False), (AnyChar, True)]"
  let ?prj = "prj_ok(''top_module'' \<mapsto> ''c'')"
  obtain p e' where ok: "Project_init env_ok ''p.toml'' = Inr (p, e')" and tp: "top_module p = ''a''"
    by (simp add: env_ok_def project_defs run_defs)
  have a: "dict_in (top_module p) (files p)"
    using top_module_is_a_key_or_construction_fails [of env_ok "''p.toml''" p e'] ok by blast
  have d: "discovered env_no_top ?rx ''./r'' = [(''a'', ''/w/r/a.v'', ''.v''), (''b'', ''/w/r/b.v'', ''.v'')]"
    by (simp add: discovered_def matching_def entry_of_def env_no_top_def trees_ok_def run_defs)
  have h: "rtoml_load env_no_top ''p.toml'' = Inr (doc_of ?prj None) \<and>
    project (doc_of ?prj None) = Some ?prj \<and> ?prj ''language'' = Some ''v'' \<and>
    ?prj ''top_module'' = Some ''c'' \<and> ?prj ''rtl_dir'' = Some ''./r'' \<and>
    ?prj ''rtl_dir_pattern'' = Some ''r/.*'' \<and>
    re_compile env_no_top ([backslash] @ ''./'' @ ''r/.*'') = Inr ?rx \<and>
    ''c'' \<notin> fst ` set (discovered env_no_top ?rx ''./r'')"
    unfolding d by (simp add: env_no_top_def project_defs run_defs)
  have dd: "distinct (map fst (discovered env_no_top ?rx ''./r''))"
    unfolding d by simp
  have "Project_init env_no_top ''p.toml'' = Inl (Exception (msg_top_module ''c''))"
    using top_module_is_a_key_or_construction_fails
      [of env_no_top "''p.toml''" p e' "doc_of ?prj None" ?prj "''v''" "''c''" "''./r''" "''r/.*''" ?rx]
      h dd by blast
  with ok a tp h show ?thesis by blast
qed

text \<open>
  Claim C1 at a manifest whose top module is the empty string, over an RTL directory
  with the one file \<^verbatim>\<open>Makefile\<close>. The stem of that file is \<^verbatim>\<open>Makefile\<close>, so no discovered
  file has the top module as its stem; but the discoverer registers the file under the
  empty name (the slice \<^verbatim>\<open>[:-0]\<close>), the check finds the key, and construction returns a
  model.
\<close>

theorem empty_top_module_matches_file_without_suffix:
  "file_lists env_empty_top ''./r'' ''r/.*'' collect [] = Inr [([], ''/w/r/Makefile'', [])] \<and>
   fst (os_path_splitext (os_path_basename ''/w/r/Makefile'')) = ''Makefile'' \<and>
   (\<exists>p e'. Project_init env_empty_top ''p.toml'' = Inr (p, e') \<and>
      top_module p = [] \<and>
      files p = [([], \<lparr>filename = [], ext_name = [], fullpath = ''/w/r/Makefile''\<rparr>)])"
  by (simp add: env_empty_top_def project_defs run_defs)

lemma load_testbench_loop_closed:
  assumes "prj ''tb_file_fmt'' = Some T"
    and "\<forall>m \<in> fst ` set M. str_format e T m = Inr (t m)"
    and "distinct (map fst M)"
    and "fst ` set acc \<inter> fst ` set M = {}"
  shows "load_testbench_loop e prj F M acc =
           Inr (acc @ List.map_filter (\<lambda>m. map_option (Pair m) (map_of F (t m))) (map fst M))"
  using assms(2-4)
proof (induction M arbitrary: acc)
  case Nil
  show ?case by (simp add: List.map_filter_simps)
next
  case (Cons a M)
  obtain m fi where a: "a = (m, fi)" by (cases a)
  have fm: "str_format e T m = Inr (t m)"
    using Cons.prems(1) by (simp add: a)
  have rest: "\<forall>m \<in> fst ` set M. str_format e T m = Inr (t m)" "distinct (map fst M)"
    using Cons.prems(1,2) by (auto simp: a)
  have fresh: "m \<notin> fst ` set acc" "m \<notin> fst ` set M"
    using Cons.prems(2,3) by (auto simp: a)
  have lk: "lookup prj ''tb_file_fmt'' = Inr T"
    using assms(1) by (simp add: lookup_def)
  show ?case
  proof (cases "map_of F (t m)")
    case None
    have "fst ` set acc \<inter> fst ` set M = {}"
      using Cons.prems(3) by (auto simp: a)
    from Cons.IH [OF rest this] show ?thesis
      by (simp add: a lk fm None List.map_filter_simps)
  next
    case (Some info)
    have "fst ` set (acc @ [(m, info)]) \<inter> fst ` set M = {}"
      using Cons.prems(3) fresh(2) by (auto simp: a)
    from Cons.IH [OF rest this] show ?thesis
      by (simp add: a lk fm Some List.map_filter_simps
          update_fresh [OF fresh(1)])
  qed
qed

lemma map_of_map_filter_keys:
  "map_of (List.map_filter (\<lambda>m. map_option (Pair m) (g m)) ks) m =
     (if m \<in> set ks then g m else None)"
proof (induction ks)
  case Nil
  show ?case by (simp add: List.map_filter_simps)
next
  case (Cons k ks)
  show ?case
    by (cases "g k") (use Cons.IH in \<open>auto simp: List.map_filter_simps\<close>)
qed

lemma fst_map_filter_keys:
  "set (map fst (List.map_filter (\<lambda>m. map_option (Pair m) (g m)) ks)) \<subseteq> set ks"
  by (auto simp: List.map_filter_def)

text \<open>
  Claim C2. Let \<open>T\<close> be the template of the manifest and \<open>t m\<close> the result of applying it
  to the module name \<open>m\<close>, for every module of the primary registry \<open>M\<close> (a single-slot
  template applies to every name without error). Then testbench resolution returns,
  without error, the registry that maps exactly the modules \<open>m\<close> of \<open>M\<close> with \<open>t m\<close> a key of
  the discovered testbench files \<open>F\<close> to \<open>F[t m]\<close>, in the order of \<open>M\<close>. Every key of the
  result is a key of \<open>M\<close>, a module without a testbench is left out, and the result is a
  function of \<open>M\<close>, \<open>T\<close> and \<open>F\<close> alone: any run with the same template and the same
  \<^verbatim>\<open>str.format\<close> gives the same registry.
\<close>

theorem testbench_resolution:
  assumes "prj ''tb_file_fmt'' = Some T"
    and "\<forall>m \<in> fst ` set M. str_format e T m = Inr (t m)"
    and "distinct (map fst M)"
  shows "\<exists>R. load_testbench_files e M prj F = Inr R \<and>
           R = List.map_filter (\<lambda>m. map_option (Pair m) (map_of F (t m))) (map fst M) \<and>
           set (map fst R) \<subseteq> set (map fst M) \<and>
           (\<forall>m. map_of R m = (if m \<in> fst ` set M then map_of F (t m) else None)) \<and>
           (\<forall>e' prj'. str_format e' = str_format e \<and> prj' ''tb_file_fmt'' = Some T \<longrightarrow>
              load_testbench_files e' M prj' F = Inr R)"
proof -
  let ?R = "List.map_filter (\<lambda>m. map_option (Pair m) (map_of F (t m))) (map fst M)"
  have run: "load_testbench_files e' M prj' F = Inr ?R"
    if "str_format e' = str_format e" "prj' ''tb_file_fmt'' = Some T" for e' prj'
    using load_testbench_loop_closed [of prj' T M e' t "[]" F] that assms(2,3)
    by (simp add: load_testbench_files_def)
  have "load_testbench_files e M prj F = Inr ?R"
    using run [of e prj] assms(1) by simp
  moreover have "set (map fst ?R) \<subseteq> set (map fst M)"
    by (rule fst_map_filter_keys)
  moreover have "map_of ?R m = (if m \<in> fst ` set M then map_of F (t m) else None)" for m
    using map_of_map_filter_keys [of "\<lambda>m. map_of F (t m)" "map fst M" m] by simp
  ultimately show ?thesis
    using run by blast
qed

theorem testbench_resolution_witness:
  "prj_ok ''tb_file_fmt'' = Some ''{}_tb'' \<and>
   str_format env_ok ''{}_tb'' ''a'' = Inr ''a_tb'' \<and>
   str_format env_ok ''{}_tb'' ''b'' = Inr ''b_tb'' \<and>
   distinct (map fst files_ok) \<and>
   load_testbench_files env_ok files_ok prj_ok tb_files_ok =
     Inr [(''a'', \<lparr>filename = ''a_tb'', ext_name = ''.v'', fullpath = ''/w/t/a_tb.v''\<rparr>)]"
proof -
  have h1: "prj_ok ''tb_file_fmt'' = Some ''{}_tb''"
    by (simp add: prj_ok_def)
  have fa: "str_format env_ok ''{}_tb'' ''a'' = Inr ''a_tb''"
    and fb: "str_format env_ok ''{}_tb'' ''b'' = Inr ''b_tb''"
    by (simp_all add: env_ok_def env_of_def format_fragment_def)
  have h2: "\<forall>m \<in> fst ` set files_ok. str_format env_ok ''{}_tb'' m = Inr (m @ ''_tb'')"
    using fa fb by (simp add: files_ok_def)
  have h3: "distinct (map fst files_ok)"
    by (simp add: files_ok_def)
  from testbench_resolution
    [of prj_ok "''{}_tb''" files_ok env_ok "\<lambda>m. m @ ''_tb''" tb_files_ok] h1 h2 h3 have
    "load_testbench_files env_ok files_ok prj_ok tb_files_ok =
       Inr (List.map_filter (\<lambda>m. map_option (Pair m) (map_of tb_files_ok (m @ ''_tb'')))
         (map fst files_ok))"
    by blast
  then have "load_testbench_files env_ok files_ok prj_ok tb_files_ok =
     Inr [(''a'', \<lparr>filename = ''a_tb'', ext_name = ''.v'', fullpath = ''/w/t/a_tb.v''\<rparr>)]"
    by (simp add: files_ok_def tb_files_ok_def List.map_filter_simps)
  with h1 fa fb h3 show ?thesis by simp
qed

section \<open>IP cores\<close>

lemma load_ip_core_Inr:
  "load_ip_core e d = Inr i \<longleftrightarrow>
     (\<exists>n rd pat fs. d ''name'' = Some n \<and> d ''rtl_dir'' = Some rd \<and>
        d ''rtl_dir_pattern'' = Some pat \<and>
        file_lists e rd pat append_file_to_map_parteval [] = Inr fs \<and> dict_in n fs \<and>
        i = \<lparr>name = n, ip_root_dir = os_path_abspath e rd, rtl_files = fs\<rparr>)"
  by (auto simp: load_ip_core_def bind_eq_Inr lookup_eq_Inr split: if_splits)

lemma load_ip_core_no_top:
  "d ''name'' = Some n \<Longrightarrow> d ''rtl_dir'' = Some rd \<Longrightarrow> d ''rtl_dir_pattern'' = Some pat \<Longrightarrow>
     file_lists e rd pat append_file_to_map_parteval [] = Inr fs \<Longrightarrow> \<not> dict_in n fs \<Longrightarrow>
     load_ip_core e d = Inl (Exception (msg_ip_top_module n))"
  by (simp add: load_ip_core_def lookup_Some)

lemma load_ip_cores_loop_Inr:
  "load_ip_cores_loop e decls acc = Inr cores \<longleftrightarrow>
     (\<exists>infos. map (load_ip_core e) decls = map Inr infos \<and> cores = store_all infos acc)"
proof (induction decls arbitrary: acc)
  case Nil
  show ?case by (auto simp: store_all_def)
next
  case (Cons d decls)
  show ?case
  proof (cases "load_ip_core e d")
    case (Inl err)
    then show ?thesis by (auto simp: map_eq_Cons_conv)
  next
    case (Inr i)
    show ?thesis
    proof
      assume "load_ip_cores_loop e (d # decls) acc = Inr cores"
      then obtain infos where "map (load_ip_core e) decls = map Inr infos"
        "cores = store_all infos (AList.update (name i) i acc)"
        using Inr Cons.IH by auto
      then have "map (load_ip_core e) (d # decls) = map Inr (i # infos) \<and>
          cores = store_all (i # infos) acc"
        using Inr by (simp add: store_all_def)
      then show "\<exists>infos. map (load_ip_core e) (d # decls) = map Inr infos \<and>
          cores = store_all infos acc"
        by blast
    next
      assume "\<exists>infos. map (load_ip_core e) (d # decls) = map Inr infos \<and>
          cores = store_all infos acc"
      then obtain infos where m: "map (load_ip_core e) (d # decls) = map Inr infos"
        and c: "cores = store_all infos acc"
        by blast
      from m Inr obtain rest where r: "infos = i # rest" "map (load_ip_core e) decls = map Inr rest"
        by (cases infos) auto
      then show "load_ip_cores_loop e (d # decls) acc = Inr cores"
        using Inr c Cons.IH [of "AList.update (name i) i acc"] by (auto simp: store_all_def)
    qed
  qed
qed

lemma load_ip_cores_loop_first_error:
  "map (load_ip_core e) pre = map Inr infos \<Longrightarrow> load_ip_core e d = Inl err \<Longrightarrow>
     load_ip_cores_loop e (pre @ d # post) acc = Inl err"
proof (induction pre arbitrary: infos acc)
  case Nil
  then show ?case by simp
next
  case (Cons a pre)
  then obtain i rest where "infos = i # rest" "load_ip_core e a = Inr i"
    "map (load_ip_core e) pre = map Inr rest"
    by (cases infos) auto
  with Cons.IH [of rest] Cons.prems(2) show ?case by simp
qed

lemma map_of_store_all:
  "map_of (store_all infos acc) = map_of (rev (map (\<lambda>i. (name i, i)) infos) @ acc)"
proof (induction infos arbitrary: acc)
  case Nil
  show ?case by (simp add: store_all_def)
next
  case (Cons i infos)
  have "store_all (i # infos) acc = store_all infos (AList.update (name i) i acc)"
    by (simp add: store_all_def)
  then show ?case
    by (simp add: Cons.IH update_conv' map_add_def fun_eq_iff split: option.splits)
qed

lemma store_all_distinct:
  "distinct (map name infos) \<Longrightarrow> name ` set infos \<inter> fst ` set acc = {} \<Longrightarrow>
     store_all infos acc = acc @ map (\<lambda>i. (name i, i)) infos"
proof (induction infos arbitrary: acc)
  case Nil
  show ?case by (simp add: store_all_def)
next
  case (Cons i infos)
  have fresh: "name i \<notin> fst ` set acc"
    using Cons.prems(2) by auto
  have step: "store_all (i # infos) acc = store_all infos (acc @ [(name i, i)])"
    by (simp add: store_all_def update_fresh [OF fresh])
  have "name ` set infos \<inter> fst ` set (acc @ [(name i, i)]) = {}"
    using Cons.prems by auto
  with Cons.IH [of "acc @ [(name i, i)]"] Cons.prems(1) show ?case
    by (simp add: step)
qed

lemma set_alist_update:
  "x \<in> set (AList.update k v al) \<Longrightarrow> x \<in> set al \<or> x = (k, v)"
  by (induction al) (auto split: if_splits)

lemma store_all_entries:
  "(k, c) \<in> set (store_all infos acc) \<Longrightarrow> (k, c) \<in> set acc \<or> (c \<in> set infos \<and> k = name c)"
proof (induction infos arbitrary: acc)
  case Nil
  then show ?case by (simp add: store_all_def)
next
  case (Cons i infos)
  have step: "store_all (i # infos) acc = store_all infos (AList.update (name i) i acc)"
    by (simp add: store_all_def)
  from Cons.prems have "(k, c) \<in> set (AList.update (name i) i acc) \<or> (c \<in> set infos \<and> k = name c)"
    unfolding step by (rule Cons.IH)
  moreover have "(k, c) \<in> set (AList.update (name i) i acc) \<Longrightarrow> (k, c) \<in> set acc \<or> (k, c) = (name i, i)"
    by (drule set_alist_update) simp
  ultimately show ?case by auto
qed

lemma map_of_rev_last:
  assumes "j < length infos"
    and "\<forall>k. j < k \<and> k < length infos \<longrightarrow> name (infos ! k) \<noteq> name (infos ! j)"
  shows "map_of (rev (map (\<lambda>i. (name i, i)) infos)) (name (infos ! j)) = Some (infos ! j)"
proof -
  let ?n = "name (infos ! j)"
  let ?post = "drop (Suc j) infos"
  have split: "infos = take j infos @ infos ! j # ?post"
    using assms(1) by (rule id_take_nth_drop)
  have "?n \<notin> name ` set ?post"
  proof
    assume "?n \<in> name ` set ?post"
    then obtain x where "x \<in> set ?post" "name x = ?n" by auto
    then obtain k where "k < length ?post" "?post ! k = x"
      by (auto simp: in_set_conv_nth)
    then have "Suc j + k < length infos" "infos ! (Suc j + k) = x"
      by auto
    with assms(2) \<open>name x = ?n\<close> show False
      by (metis add_Suc less_add_Suc1)
  qed
  then have none: "map_of (rev (map (\<lambda>i. (name i, i)) ?post)) ?n = None"
    by (force simp: map_of_eq_None_iff)
  have "rev (map (\<lambda>i. (name i, i)) infos) =
      rev (map (\<lambda>i. (name i, i)) ?post) @ (?n, infos ! j) # rev (map (\<lambda>i. (name i, i)) (take j infos))"
    by (subst split) simp
  then show ?thesis
    using none by (simp add: map_add_def)
qed

text \<open>
  Claim C10. When every declared core resolves on its own (its files are discovered and
  its name is among them), \<^verbatim>\<open>_load_ip_cores\<close> succeeds whether or not names repeat, and
  a name declared at the positions \<open>i < j\<close>, with no later declaration of it, is mapped
  to the core of the declaration \<open>j\<close>. A successful construction stores exactly this
  dictionary in \<open>ip_cores\<close>.
\<close>

theorem later_ip_core_declaration_wins:
  assumes "map (load_ip_core e) decls = map Inr infos"
    and "i < j" and "j < length infos"
    and "name (infos ! i) = name (infos ! j)"
    and "\<forall>k. j < k \<and> k < length infos \<longrightarrow> name (infos ! k) \<noteq> name (infos ! j)"
  shows "\<exists>cores. load_ip_cores e decls = Inr cores \<and>
           map_of cores (name (infos ! j)) = Some (infos ! j) \<and>
           (\<forall>file p e' d. Project_init e file = Inr (p, e') \<and> rtoml_load e file = Inr d \<and>
              ip d = Some decls \<longrightarrow> ip_cores p = cores)"
proof -
  let ?cores = "store_all infos []"
  have run: "load_ip_cores e decls = Inr ?cores"
    using assms(1) by (auto simp: load_ip_cores_def load_ip_cores_loop_Inr)
  have "map_of ?cores (name (infos ! j)) = Some (infos ! j)"
    using map_of_rev_last [OF assms(3,5)] by (simp add: map_of_store_all)
  moreover have "ip_cores p = ?cores"
    if "Project_init e f = Inr (p, e')" "rtoml_load e f = Inr d" "ip d = Some decls"
    for f p e' d
  proof -
    from that(1) have "init_body e f = Inr (p, e')"
      by (simp add: Project_init_Inr)
    then have "load_ip_cores e decls = Inr (ip_cores p)"
      unfolding init_body_Inr using that(2,3) by auto
    with run show ?thesis by simp
  qed
  ultimately show ?thesis
    using run by blast
qed

theorem later_ip_core_declaration_wins_witness:
  "map (load_ip_core env_ip_same_name) decls_same_name = map Inr [core_i, core_j] \<and>
   name ([core_i, core_j] ! 0) = name ([core_i, core_j] ! 1) \<and>
   (\<exists>p. Project_init env_ip_same_name ''p.toml'' =
           Inr (p, env_ip_same_name\<lparr>tree_at := (tree_at env_ip_same_name)(''/w/o/'' \<mapsto> Dir [] [])\<rparr>) \<and>
         map_of (ip_cores p) ''f'' = Some core_j)"
proof -
  let ?infos = "[core_i, core_j]"
  let ?e' = "env_ip_same_name\<lparr>tree_at := (tree_at env_ip_same_name)(''/w/o/'' \<mapsto> Dir [] [])\<rparr>"
  have h1: "map (load_ip_core env_ip_same_name) decls_same_name = map Inr ?infos"
    by (simp add: env_ip_same_name_def decls_same_name_def ip_decl_def trees_ip_def core_i_def
        core_j_def project_defs run_defs)
  have h2: "(0::nat) < 1" and h3: "1 < length ?infos"
    by simp_all
  have h4: "name (?infos ! 0) = name (?infos ! 1)"
    by (simp add: core_i_def core_j_def)
  have h5: "\<forall>k. 1 < k \<and> k < length ?infos \<longrightarrow> name (?infos ! k) \<noteq> name (?infos ! 1)"
    by simp
  obtain p where ok: "Project_init env_ip_same_name ''p.toml'' = Inr (p, ?e')"
    by (simp add: env_ip_same_name_def decls_same_name_def ip_decl_def trees_ip_def
        project_defs run_defs)
  have ld: "rtoml_load env_ip_same_name ''p.toml'' = Inr (doc_of prj_ok (Some decls_same_name))"
    and ipd: "ip (doc_of prj_ok (Some decls_same_name)) = Some decls_same_name"
    by (simp_all add: env_ip_same_name_def env_of_def rtoml_defs doc_of_def)
  from later_ip_core_declaration_wins [OF h1 h2 h3 h4 h5] obtain cores where
    c: "map_of cores (name (?infos ! 1)) = Some (?infos ! 1)"
    and pr: "\<And>file p e' d. Project_init env_ip_same_name file = Inr (p, e') \<and>
        rtoml_load env_ip_same_name file = Inr d \<and> ip d = Some decls_same_name \<Longrightarrow> ip_cores p = cores"
    by blast
  have "ip_cores p = cores"
    using pr [of "''p.toml''" p ?e'] ok ld ipd by blast
  with c have "map_of (ip_cores p) ''f'' = Some core_j"
    by (simp add: core_j_def)
  with h1 h4 ok show ?thesis by blast
qed

lemma load_spec_file_Inr:
  assumes "load_spec_file e sf = Inr (ls, ext)"
  shows "\<exists>sd. rtoml_load e (os_path_abspath e sf) = Inr sd \<and>
           ext = (case ext_including_dir sd of None \<Rightarrow> [] | Some dirs \<Rightarrow> map (os_path_abspath e) dirs)"
  using assms by (auto simp: load_spec_file_def Let_def bind_eq_Inr)

lemma infos_of_decls:
  "map (load_ip_core e) decls = map Inr infos \<Longrightarrow>
     map (\<lambda>d. d ''name'') decls = map (\<lambda>i. Some (name i)) infos \<and>
     map (\<lambda>d. os_path_abspath e (the (d ''rtl_dir''))) decls = map ip_root_dir infos"
proof (induction decls arbitrary: infos)
  case Nil
  then show ?case by simp
next
  case (Cons d decls)
  then obtain i rest where r: "infos = i # rest" "load_ip_core e d = Inr i"
    "map (load_ip_core e) decls = map Inr rest"
    by (cases infos) auto
  from r(2) have "d ''name'' = Some (name i)" "os_path_abspath e (the (d ''rtl_dir'')) = ip_root_dir i"
    by (auto simp: load_ip_core_Inr)
  with Cons.IH [OF r(3)] r(1) show ?case by simp
qed

lemma ip_cores_distinct_names:
  assumes "load_ip_cores e decls = Inr cores" and "distinct (map (\<lambda>d. d ''name'') decls)"
  shows "map (\<lambda>(n, c). ip_root_dir c) cores =
           map (\<lambda>d. os_path_abspath e (the (d ''rtl_dir''))) decls"
proof -
  from assms(1) obtain infos where m: "map (load_ip_core e) decls = map Inr infos"
    and c: "cores = store_all infos []"
    by (auto simp: load_ip_cores_def load_ip_cores_loop_Inr)
  from infos_of_decls [OF m] have n: "map (\<lambda>d. d ''name'') decls = map (\<lambda>i. Some (name i)) infos"
    and rd: "map (\<lambda>d. os_path_abspath e (the (d ''rtl_dir''))) decls = map ip_root_dir infos"
    by simp_all
  have "distinct (map (\<lambda>i. Some (name i)) infos)"
    using assms(2) n by simp
  then have "distinct (map name infos)"
    by (simp add: distinct_map inj_on_def)
  then have "cores = map (\<lambda>i. (name i, i)) infos"
    using store_all_distinct [of infos "[]"] c by simp
  then show ?thesis
    by (simp add: rd comp_def)
qed

text \<open>
  Claim C3, as the code has it. After a successful construction \<open>including_dir\<close> is
  \<open>root_dir\<close>, then the root directory of every entry of \<open>ip_cores\<close> in the order of that
  dictionary, then the extra include directories of the spec file in file order (none
  without a spec file). When the declared core names are pairwise distinct, the middle
  part is the root directory of every declared core in declaration order. Without IP
  cores and without a spec file, \<open>ip_cores\<close> and \<open>libs\<close> are empty and \<open>including_dir\<close> is
  \<open>[root_dir]\<close>.
\<close>

theorem including_dir_sequence:
  assumes "Project_init e file = Inr (p, e')"
  shows "\<exists>d prj rtl ext.
     rtoml_load e file = Inr d \<and> project d = Some prj \<and>
     prj ''rtl_dir'' = Some rtl \<and> root_dir p = os_path_abspath e rtl \<and>
     (case prj ''spec'' of
        None \<Rightarrow> ext = []
      | Some sf \<Rightarrow>
          (\<exists>sd. rtoml_load e (os_path_abspath e sf) = Inr sd \<and>
             ext = (case ext_including_dir sd of
                      None \<Rightarrow> [] | Some dirs \<Rightarrow> map (os_path_abspath e) dirs))) \<and>
     including_dir p = [root_dir p] @ map (\<lambda>(n, c). ip_root_dir c) (ip_cores p) @ ext \<and>
     (case ip d of
        None \<Rightarrow> ip_cores p = []
      | Some decls \<Rightarrow>
          load_ip_cores e decls = Inr (ip_cores p) \<and>
          (distinct (map (\<lambda>i. i ''name'') decls) \<longrightarrow>
             map (\<lambda>(n, c). ip_root_dir c) (ip_cores p) =
               map (\<lambda>i. os_path_abspath e (the (i ''rtl_dir''))) decls)) \<and>
     ((ip d = None \<or> ip d = Some []) \<and> prj ''spec'' = None \<longrightarrow>
        ip_cores p = [] \<and> libs p = [] \<and> including_dir p = [root_dir p])"
proof -
  from assms have "init_body e file = Inr (p, e')"
    by (simp add: Project_init_Inr)
  then obtain d prj lang tm rd fs cores ls ext where
    ld: "rtoml_load e file = Inr d" "project d = Some prj"
    and pp: "load_project_properties e prj = Inr (lang, tm, rd, fs)"
    and ipc: "(case ip d of None \<Rightarrow> Inr [] | Some decls \<Rightarrow> load_ip_cores e decls) = Inr cores"
    and sp: "(case prj ''spec'' of None \<Rightarrow> Inr ([], []) | Some sf \<Rightarrow> load_spec_file e sf) =
          Inr (ls, ext)"
    and flds: "ip_cores p = cores" "libs p = ls" "root_dir p = rd"
      "including_dir p = [rd] @ map (\<lambda>(ip_name, ip_core). ip_root_dir ip_core) cores @ ext"
    unfolding init_body_Inr by auto
  from pp obtain rtl where rtl: "prj ''rtl_dir'' = Some rtl" "rd = os_path_abspath e rtl"
    by (auto simp: load_project_properties_Inr)
  have spec: "(case prj ''spec'' of
        None \<Rightarrow> ext = []
      | Some sf \<Rightarrow>
          (\<exists>sd. rtoml_load e (os_path_abspath e sf) = Inr sd \<and>
             ext = (case ext_including_dir sd of
                      None \<Rightarrow> [] | Some dirs \<Rightarrow> map (os_path_abspath e) dirs)))"
  proof (cases "prj ''spec''")
    case None
    then show ?thesis using sp by simp
  next
    case (Some sf)
    with sp have "load_spec_file e sf = Inr (ls, ext)" by simp
    from load_spec_file_Inr [OF this] show ?thesis
      by (simp add: Some)
  qed
  have ips: "(case ip d of
        None \<Rightarrow> ip_cores p = []
      | Some decls \<Rightarrow>
          load_ip_cores e decls = Inr (ip_cores p) \<and>
          (distinct (map (\<lambda>i. i ''name'') decls) \<longrightarrow>
             map (\<lambda>(n, c). ip_root_dir c) (ip_cores p) =
               map (\<lambda>i. os_path_abspath e (the (i ''rtl_dir''))) decls))"
    using ipc flds(1) by (auto split: option.splits dest: ip_cores_distinct_names)
  have zero: "ip_cores p = [] \<and> libs p = [] \<and> including_dir p = [root_dir p]"
    if "(ip d = None \<or> ip d = Some []) \<and> prj ''spec'' = None"
    using that ipc sp flds by (auto simp: load_ip_cores_def)
  show ?thesis
    using ld rtl flds(3,4) spec ips zero flds(1)
    by (intro exI [of _ d] exI [of _ prj] exI [of _ rtl] exI [of _ ext]) simp
qed

theorem including_dir_sequence_witness:
  "\<exists>p. Project_init env_ip_spec ''p.toml'' =
          Inr (p, env_ip_spec\<lparr>tree_at := (tree_at env_ip_spec)(''/w/o/'' \<mapsto> Dir [] [])\<rparr>) \<and>
        distinct (map (\<lambda>i. i ''name'') decls_two) \<and>
        including_dir p = [''/w/r'', ''/w/i'', ''/w/j'', ''/w/x'', ''/y'']"
proof -
  let ?e' = "env_ip_spec\<lparr>tree_at := (tree_at env_ip_spec)(''/w/o/'' \<mapsto> Dir [] [])\<rparr>"
  let ?prj = "prj_ok(''spec'' \<mapsto> ''s.toml'')"
  obtain p where ok: "Project_init env_ip_spec ''p.toml'' = Inr (p, ?e')"
    by (simp add: env_ip_spec_def decls_two_def spec_doc_def ip_decl_def trees_ip_def
        project_defs run_defs)
  have dn: "distinct (map (\<lambda>i. i ''name'') decls_two)"
    by (simp add: decls_two_def ip_decl_def)
  have ld: "rtoml_load env_ip_spec ''p.toml'' = Inr (doc_of ?prj (Some decls_two))"
    and ls: "rtoml_load env_ip_spec ''/w/s.toml'' = Inr spec_doc"
    by (simp_all add: env_ip_spec_def env_of_def rtoml_defs)
  from including_dir_sequence [OF ok] obtain d prj rtl ext where
    f: "rtoml_load env_ip_spec ''p.toml'' = Inr d" "project d = Some prj"
      "prj ''rtl_dir'' = Some rtl" "root_dir p = os_path_abspath env_ip_spec rtl"
      "(case prj ''spec'' of
        None \<Rightarrow> ext = []
      | Some sf \<Rightarrow>
          (\<exists>sd. rtoml_load env_ip_spec (os_path_abspath env_ip_spec sf) = Inr sd \<and>
             ext = (case ext_including_dir sd of
                      None \<Rightarrow> [] | Some dirs \<Rightarrow> map (os_path_abspath env_ip_spec) dirs)))"
      "including_dir p = [root_dir p] @ map (\<lambda>(n, c). ip_root_dir c) (ip_cores p) @ ext"
      "(case ip d of
        None \<Rightarrow> ip_cores p = []
      | Some decls \<Rightarrow>
          load_ip_cores env_ip_spec decls = Inr (ip_cores p) \<and>
          (distinct (map (\<lambda>i. i ''name'') decls) \<longrightarrow>
             map (\<lambda>(n, c). ip_root_dir c) (ip_cores p) =
               map (\<lambda>i. os_path_abspath env_ip_spec (the (i ''rtl_dir''))) decls))"
    by blast
  from f(1,2) ld have d: "d = doc_of ?prj (Some decls_two)" "prj = ?prj"
    by (auto simp: doc_of_def)
  have rtl: "rtl = ''./r''"
    using f(3) by (simp add: d prj_ok_def)
  have abs: "os_path_abspath env_ip_spec ''s.toml'' = ''/w/s.toml''"
    by (simp add: env_ip_spec_def run_defs)
  have ext: "ext = [''/w/x'', ''/y'']"
    using f(5) ls by (simp add: d abs spec_doc_def) (simp add: env_ip_spec_def run_defs)
  have mid: "map (\<lambda>(n, c). ip_root_dir c) (ip_cores p) = [''/w/i'', ''/w/j'']"
    using f(7) dn by (simp add: d doc_of_def) (simp add: decls_two_def ip_decl_def env_ip_spec_def run_defs)
  have "including_dir p = [''/w/r'', ''/w/i'', ''/w/j'', ''/w/x'', ''/y'']"
    using f(6) f(4) by (simp add: mid ext rtl) (simp add: env_ip_spec_def run_defs)
  with ok dn show ?thesis by blast
qed

text \<open>
  Claim C3 as the specification states it fails when two declarations share a name: the
  construction succeeds, the dictionary holds one core for the name, and \<open>including_dir\<close>
  has one directory for the two declarations.
\<close>

theorem including_dir_repeated_name_counterexample:
  "\<exists>p e'. Project_init env_ip_same_name ''p.toml'' = Inr (p, e') \<and>
     rtoml_load env_ip_same_name ''p.toml'' = Inr (doc_of prj_ok (Some decls_same_name)) \<and>
     including_dir p = [''/w/r'', ''/w/j''] \<and>
     [root_dir p] @
       map (\<lambda>i. os_path_abspath env_ip_same_name (the (i ''rtl_dir''))) decls_same_name @ [] =
       [''/w/r'', ''/w/i'', ''/w/j'']"
  by (simp add: env_ip_same_name_def decls_same_name_def ip_decl_def trees_ip_def
        project_defs run_defs)

lemma init_body_ip_cores_Inl:
  "rtoml_load e file = Inr d \<Longrightarrow> project d = Some prj \<Longrightarrow>
     load_project_properties e prj = Inr (lang, tm, rd, fs) \<Longrightarrow>
     prj ''tb_dir'' = Some tbd \<Longrightarrow> prj ''tb_dir_pattern'' = Some tbp \<Longrightarrow>
     file_lists e tbd tbp append_file_to_map_parteval [] = Inr tbf \<Longrightarrow>
     load_testbench_files e fs prj tbf = Inr tb \<Longrightarrow> ip d = Some decls \<Longrightarrow>
     load_ip_cores e decls = Inl err \<Longrightarrow> init_body e file = Inl err"
  by (simp add: init_body_def lookup_Some)

lemma map_Inr_nth:
  "map f xs = map Inr ys \<Longrightarrow> x \<in> set xs \<Longrightarrow> \<exists>y. f x = Inr y"
  by (metis (no_types, lifting) imageE image_eqI list.set_map)

text \<open>
  Claim C8. A declared core whose name is no key of the registry discovered from its own
  directory fails with the bare \<open>Exception\<close> whose message names the core; when the cores
  declared before it resolve, this is the result of \<^verbatim>\<open>_load_ip_cores\<close> and, the steps
  before the IP cores having succeeded, of the whole construction. A successful
  construction has resolved every declared core: each entry of \<open>ip_cores\<close> is stored under
  its core's name, and that name is a key of the core's \<open>rtl_files\<close>.
\<close>

theorem ip_core_without_top_module_aborts:
  "(d0 ''name'' = Some n \<and> d0 ''rtl_dir'' = Some ird \<and> d0 ''rtl_dir_pattern'' = Some ipat \<and>
    file_lists e ird ipat append_file_to_map_parteval [] = Inr ifs \<and> \<not> dict_in n ifs \<and>
    rtoml_load e file = Inr d \<and> project d = Some prj \<and>
    load_project_properties e prj = Inr (lang, tm, rd, fs) \<and>
    prj ''tb_dir'' = Some tbd \<and> prj ''tb_dir_pattern'' = Some tbp \<and>
    file_lists e tbd tbp append_file_to_map_parteval [] = Inr tbf \<and>
    load_testbench_files e fs prj tbf = Inr tb \<and>
    ip d = Some (pre @ d0 # post) \<and> map (load_ip_core e) pre = map Inr infos \<longrightarrow>
      load_ip_core e d0 = Inl (Exception (msg_ip_top_module n)) \<and>
      load_ip_cores e (pre @ d0 # post) = Inl (Exception (msg_ip_top_module n)) \<and>
      Project_init e file = Inl (Exception (msg_ip_top_module n))) \<and>
   (Project_init e file = Inr (p, e') \<longrightarrow>
      (\<forall>(k, c) \<in> set (ip_cores p). k = name c \<and> dict_in (name c) (rtl_files c)) \<and>
      (\<forall>d decls. rtoml_load e file = Inr d \<and> ip d = Some decls \<longrightarrow>
         (\<forall>d1 \<in> set decls. \<exists>i. load_ip_core e d1 = Inr i \<and> d1 ''name'' = Some (name i) \<and>
            dict_in (name i) (rtl_files i))))"
proof (intro conjI impI)
  assume h: "d0 ''name'' = Some n \<and> d0 ''rtl_dir'' = Some ird \<and> d0 ''rtl_dir_pattern'' = Some ipat \<and>
    file_lists e ird ipat append_file_to_map_parteval [] = Inr ifs \<and> \<not> dict_in n ifs \<and>
    rtoml_load e file = Inr d \<and> project d = Some prj \<and>
    load_project_properties e prj = Inr (lang, tm, rd, fs) \<and>
    prj ''tb_dir'' = Some tbd \<and> prj ''tb_dir_pattern'' = Some tbp \<and>
    file_lists e tbd tbp append_file_to_map_parteval [] = Inr tbf \<and>
    load_testbench_files e fs prj tbf = Inr tb \<and>
    ip d = Some (pre @ d0 # post) \<and> map (load_ip_core e) pre = map Inr infos"
  then show core: "load_ip_core e d0 = Inl (Exception (msg_ip_top_module n))"
    by (simp add: load_ip_core_no_top)
  with h show cores: "load_ip_cores e (pre @ d0 # post) = Inl (Exception (msg_ip_top_module n))"
    by (simp add: load_ip_cores_def load_ip_cores_loop_first_error)
  have "init_body e file = Inl (Exception (msg_ip_top_module n))"
    using h cores init_body_ip_cores_Inl [of e "file" d prj lang tm rd fs tbd tbp tbf tb "pre @ d0 # post"]
    by blast
  then show "Project_init e file = Inl (Exception (msg_ip_top_module n))"
    by (rule Project_init_Exception)
next
  assume "Project_init e file = Inr (p, e')"
  then have ib: "init_body e file = Inr (p, e')"
    by (simp add: Project_init_Inr)
  then obtain d where d: "rtoml_load e file = Inr d"
    "(case ip d of None \<Rightarrow> Inr [] | Some decls \<Rightarrow> load_ip_cores e decls) = Inr (ip_cores p)"
    unfolding init_body_Inr by auto
  show "\<forall>(k, c) \<in> set (ip_cores p). k = name c \<and> dict_in (name c) (rtl_files c)"
  proof (cases "ip d")
    case None
    with d(2) show ?thesis by simp
  next
    case (Some decls)
    with d(2) obtain infos where m: "map (load_ip_core e) decls = map Inr infos"
      and c: "ip_cores p = store_all infos []"
      by (auto simp: load_ip_cores_def load_ip_cores_loop_Inr)
    have "k = name c \<and> dict_in (name c) (rtl_files c)" if "(k, c) \<in> set (ip_cores p)" for k c
    proof -
      from that c have cin: "c \<in> set infos" and k: "k = name c"
        using store_all_entries [of k c infos "[]"] by auto
      from cin have "Inr c \<in> set (map (load_ip_core e) decls)"
        unfolding m by simp
      then obtain d1 where "load_ip_core e d1 = Inr c" by auto
      then have "dict_in (name c) (rtl_files c)"
        by (auto simp: load_ip_core_Inr)
      with k show ?thesis by simp
    qed
    then show ?thesis by auto
  qed
  show "\<forall>d decls. rtoml_load e file = Inr d \<and> ip d = Some decls \<longrightarrow>
         (\<forall>d1 \<in> set decls. \<exists>i. load_ip_core e d1 = Inr i \<and> d1 ''name'' = Some (name i) \<and>
            dict_in (name i) (rtl_files i))"
  proof (intro allI impI ballI)
    fix d' decls d1
    assume a: "rtoml_load e file = Inr d' \<and> ip d' = Some decls" and d1: "d1 \<in> set decls"
    with d have "load_ip_cores e decls = Inr (ip_cores p)" by auto
    then obtain infos where m: "map (load_ip_core e) decls = map Inr infos"
      by (auto simp: load_ip_cores_def load_ip_cores_loop_Inr)
    from map_Inr_nth [OF m d1] obtain i where "load_ip_core e d1 = Inr i" by blast
    then show "\<exists>i. load_ip_core e d1 = Inr i \<and> d1 ''name'' = Some (name i) \<and>
            dict_in (name i) (rtl_files i)"
      by (auto simp: load_ip_core_Inr)
  qed
qed

theorem ip_core_without_top_module_aborts_witness:
  "file_lists env_ip_no_top ''./k'' ''k/.*'' append_file_to_map_parteval [] =
     Inr [(''f_ctrl'', \<lparr>filename = ''f_ctrl'', ext_name = ''.v'', fullpath = ''/w/k/f_ctrl.v''\<rparr>)] \<and>
   map (load_ip_core env_ip_no_top) [ip_decl ''g'' ''./j'' ''j/.*''] = map Inr [core_g] \<and>
   Project_init env_ip_no_top ''p.toml'' = Inl (Exception (msg_ip_top_module ''f'')) \<and>
   (\<exists>p e'. Project_init env_ip_spec ''p.toml'' = Inr (p, e') \<and>
      list_all (\<lambda>(k, c). k = name c \<and> dict_in (name c) (rtl_files c)) (ip_cores p) \<and>
      map fst (ip_cores p) = [''f'', ''g''])"
proof -
  let ?bad = "ip_decl ''f'' ''./k'' ''k/.*''"
  let ?pre = "[ip_decl ''g'' ''./j'' ''j/.*'']"
  let ?ifs = "[(''f_ctrl'', \<lparr>filename = ''f_ctrl'', ext_name = ''.v'', fullpath = ''/w/k/f_ctrl.v''\<rparr>)]"
  let ?doc = "doc_of prj_ok (Some (?pre @ ?bad # []))"
  have k: "?bad ''name'' = Some ''f''" "?bad ''rtl_dir'' = Some ''./k''"
    "?bad ''rtl_dir_pattern'' = Some ''k/.*''"
    by (simp_all add: ip_decl_def)
  have fl: "file_lists env_ip_no_top ''./k'' ''k/.*'' append_file_to_map_parteval [] = Inr ?ifs"
    by (simp add: env_ip_no_top_def trees_ip_def project_defs run_defs)
  have nin: "\<not> dict_in ''f'' ?ifs"
    by (simp add: dict_in_def)
  have ld: "rtoml_load env_ip_no_top ''p.toml'' = Inr ?doc" "project ?doc = Some prj_ok"
    "ip ?doc = Some (?pre @ ?bad # [])"
    by (simp_all add: env_ip_no_top_def env_of_def rtoml_defs doc_of_def)
  have pp: "load_project_properties env_ip_no_top prj_ok = Inr (''v'', ''a'', ''/w/r'', files_ok)"
    by (simp add: env_ip_no_top_def trees_ip_def files_ok_def project_defs run_defs)
  have tb: "prj_ok ''tb_dir'' = Some ''./t''" "prj_ok ''tb_dir_pattern'' = Some ''t/.*''"
    by (simp_all add: prj_ok_def)
  have tbf: "file_lists env_ip_no_top ''./t'' ''t/.*'' append_file_to_map_parteval [] = Inr tb_files_ok"
    by (simp add: env_ip_no_top_def trees_ip_def tb_files_ok_def project_defs run_defs)
  have ltb: "load_testbench_files env_ip_no_top files_ok prj_ok tb_files_ok =
      Inr [(''a'', \<lparr>filename = ''a_tb'', ext_name = ''.v'', fullpath = ''/w/t/a_tb.v''\<rparr>)]"
    by (simp add: env_ip_no_top_def files_ok_def tb_files_ok_def project_defs run_defs)
  have pre: "map (load_ip_core env_ip_no_top) ?pre = map Inr [core_g]"
    by (simp add: env_ip_no_top_def ip_decl_def trees_ip_def core_g_def project_defs run_defs)
  obtain p e' where ok: "Project_init env_ip_spec ''p.toml'' = Inr (p, e')"
    and keys: "map fst (ip_cores p) = [''f'', ''g'']"
    by (simp add: env_ip_spec_def decls_two_def spec_doc_def ip_decl_def trees_ip_def
        project_defs run_defs)
  note inst = ip_core_without_top_module_aborts
    [of ?bad "''f''" "''./k''" "''k/.*''" env_ip_no_top ?ifs "''p.toml''" ?doc prj_ok
        "''v''" "''a''" "''/w/r''" files_ok "''./t''" "''t/.*''" tb_files_ok
        "[(''a'', \<lparr>filename = ''a_tb'', ext_name = ''.v'', fullpath = ''/w/t/a_tb.v''\<rparr>)]"
        ?pre "[]" "[core_g]"]
  have fail: "Project_init env_ip_no_top ''p.toml'' = Inl (Exception (msg_ip_top_module ''f''))"
    using inst k fl nin ld pp tb tbf ltb pre by blast
  have "\<forall>(k, c) \<in> set (ip_cores p). k = name c \<and> dict_in (name c) (rtl_files c)"
    by (rule ip_core_without_top_module_aborts [THEN conjunct2, THEN mp, OF ok, THEN conjunct1])
  then have la: "list_all (\<lambda>(k, c). k = name c \<and> dict_in (name c) (rtl_files c)) (ip_cores p)"
    by (simp add: list_all_iff)
  have ex: "\<exists>p e'. Project_init env_ip_spec ''p.toml'' = Inr (p, e') \<and>
      list_all (\<lambda>(k, c). k = name c \<and> dict_in (name c) (rtl_files c)) (ip_cores p) \<and>
      map fst (ip_cores p) = [''f'', ''g'']"
    by (intro exI [of _ p] exI [of _ e'] conjI ok la keys)
  show ?thesis
    by (intro conjI fl pre fail ex)
qed

section \<open>The build output directory\<close>

lemma os_mkdir_exists:
  "os_mkdir e p = Inr e' \<Longrightarrow> os_path_exists e' p \<and> e' = e\<lparr>tree_at := (tree_at e)(p \<mapsto> Dir [] [])\<rparr>"
  by (auto simp: os_mkdir_def os_path_exists_def split: option.splits)

text \<open>
  Claim C9. After a successful construction \<open>build_out_dir\<close> is the absolute form of the
  manifest's \<^verbatim>\<open>build_dir\<close> followed by the separator, and the directory exists: it was
  there before, and then nothing on disk has changed, or \<^verbatim>\<open>os.mkdir\<close> has created it.
  When the steps before have succeeded, an existing directory never is an error
  (\<^verbatim>\<open>os.mkdir\<close> is not called), and an absent one is created whenever \<^verbatim>\<open>os.mkdir\<close>
  succeeds.
\<close>

theorem build_out_dir_exists_after_construction:
  "(Project_init e file = Inr (p, e') \<longrightarrow>
      (\<exists>d prj bd. rtoml_load e file = Inr d \<and> project d = Some prj \<and>
         prj ''build_dir'' = Some bd \<and>
         build_out_dir p = os_path_abspath e bd @ os_sep \<and>
         os_path_exists e' (build_out_dir p) \<and>
         (if os_path_exists e (build_out_dir p) then e' = e
          else os_mkdir e (build_out_dir p) = Inr e' \<and>
               e' = e\<lparr>tree_at := (tree_at e)(build_out_dir p \<mapsto> Dir [] [])\<rparr>))) \<and>
   (rtoml_load e file = Inr d \<and> project d = Some prj \<and>
    load_project_properties e prj = Inr (lang, tm, rd, fs) \<and>
    prj ''tb_dir'' = Some tbd \<and> prj ''tb_dir_pattern'' = Some tbp \<and>
    file_lists e tbd tbp append_file_to_map_parteval [] = Inr tbf \<and>
    load_testbench_files e fs prj tbf = Inr tb \<and>
    (case ip d of None \<Rightarrow> Inr [] | Some decls \<Rightarrow> load_ip_cores e decls) = Inr cores \<and>
    (case prj ''spec'' of None \<Rightarrow> Inr ([], []) | Some sf \<Rightarrow> load_spec_file e sf) = Inr (ls, ext) \<and>
    prj ''build_dir'' = Some bd \<longrightarrow>
      (if os_path_exists e (os_path_abspath e bd @ os_sep)
       then \<exists>q. Project_init e file = Inr (q, e)
       else (case mkdir_error e (os_path_abspath e bd @ os_sep) of
               None \<Rightarrow>
                 \<exists>q. Project_init e file =
                   Inr (q, e\<lparr>tree_at := (tree_at e)(os_path_abspath e bd @ os_sep \<mapsto> Dir [] [])\<rparr>)
             | Some err \<Rightarrow> \<exists>err'. Project_init e file = Inl err')))"
proof (intro conjI impI)
  assume "Project_init e file = Inr (p, e')"
  then have "init_body e file = Inr (p, e')"
    by (simp add: Project_init_Inr)
  then obtain d prj bd where ld: "rtoml_load e file = Inr d" "project d = Some prj"
    "prj ''build_dir'' = Some bd"
    and mk: "(if \<not> os_path_exists e (os_path_abspath e bd @ os_sep)
         then os_mkdir e (os_path_abspath e bd @ os_sep) else Inr e) = Inr e'"
    and b: "build_out_dir p = os_path_abspath e bd @ os_sep"
    unfolding init_body_Inr by auto
  let ?b = "os_path_abspath e bd @ os_sep"
  have "os_path_exists e' ?b \<and>
         (if os_path_exists e ?b then e' = e
          else os_mkdir e ?b = Inr e' \<and> e' = e\<lparr>tree_at := (tree_at e)(?b \<mapsto> Dir [] [])\<rparr>)"
  proof (cases "os_path_exists e ?b")
    case True
    with mk show ?thesis by simp
  next
    case False
    with mk have m: "os_mkdir e ?b = Inr e'" by simp
    from os_mkdir_exists [OF m] have "os_path_exists e' ?b"
      and "e' = e\<lparr>tree_at := (tree_at e)(?b \<mapsto> Dir [] [])\<rparr>"
      by blast+
    with False m show ?thesis by (simp only: if_False)
  qed
  with ld b show "\<exists>d prj bd. rtoml_load e file = Inr d \<and> project d = Some prj \<and>
         prj ''build_dir'' = Some bd \<and>
         build_out_dir p = os_path_abspath e bd @ os_sep \<and>
         os_path_exists e' (build_out_dir p) \<and>
         (if os_path_exists e (build_out_dir p) then e' = e
          else os_mkdir e (build_out_dir p) = Inr e' \<and>
               e' = e\<lparr>tree_at := (tree_at e)(build_out_dir p \<mapsto> Dir [] [])\<rparr>)"
    by (intro exI [of _ d] exI [of _ prj] exI [of _ bd]) simp
next
  assume h: "rtoml_load e file = Inr d \<and> project d = Some prj \<and>
    load_project_properties e prj = Inr (lang, tm, rd, fs) \<and>
    prj ''tb_dir'' = Some tbd \<and> prj ''tb_dir_pattern'' = Some tbp \<and>
    file_lists e tbd tbp append_file_to_map_parteval [] = Inr tbf \<and>
    load_testbench_files e fs prj tbf = Inr tb \<and>
    (case ip d of None \<Rightarrow> Inr [] | Some decls \<Rightarrow> load_ip_cores e decls) = Inr cores \<and>
    (case prj ''spec'' of None \<Rightarrow> Inr ([], []) | Some sf \<Rightarrow> load_spec_file e sf) = Inr (ls, ext) \<and>
    prj ''build_dir'' = Some bd"
  let ?b = "os_path_abspath e bd @ os_sep"
  let ?q = "\<lparr>language = lang, files = fs, test_bench = tb, ip_cores = cores, libs = ls,
              including_dir = [rd] @ map (\<lambda>(ip_name, ip_core). ip_root_dir ip_core) cores @ ext,
              root_dir = rd, top_module = tm, build_out_dir = ?b\<rparr>"
  have body: "init_body e file =
      bind (if \<not> os_path_exists e ?b then os_mkdir e ?b else Inr e) (\<lambda>e'. Inr (?q, e'))"
    using h by (simp add: init_body_def lookup_Some Let_def split del: if_split cong: if_cong)
  show "if os_path_exists e ?b
       then \<exists>q. Project_init e file = Inr (q, e)
       else (case mkdir_error e ?b of
               None \<Rightarrow> \<exists>q. Project_init e file = Inr (q, e\<lparr>tree_at := (tree_at e)(?b \<mapsto> Dir [] [])\<rparr>)
             | Some err \<Rightarrow> \<exists>err'. Project_init e file = Inl err')"
  proof (cases "os_path_exists e ?b")
    case True
    then have "init_body e file = Inr (?q, e)"
      by (simp add: body)
    then show ?thesis
      using True by (auto simp: Project_init_Inr)
  next
    case False
    show ?thesis
    proof (cases "mkdir_error e ?b")
      case None
      then have "init_body e file = Inr (?q, e\<lparr>tree_at := (tree_at e)(?b \<mapsto> Dir [] [])\<rparr>)"
        using False by (simp add: body os_mkdir_def)
      then show ?thesis
        using False None by (auto simp: Project_init_Inr)
    next
      case (Some err)
      then have "init_body e file = Inl err"
        using False by (simp add: body os_mkdir_def)
      then have "\<exists>err'. Project_init e file = Inl err'"
        by (cases err) (simp_all add: Project_init_def)
      then show ?thesis
        using False Some by simp
    qed
  qed
qed

theorem build_out_dir_exists_after_construction_witness:
  "(\<exists>p. Project_init env_ok ''p.toml'' =
          Inr (p, env_ok\<lparr>tree_at := (tree_at env_ok)(''/w/o/'' \<mapsto> Dir [] [])\<rparr>) \<and>
        build_out_dir p = ''/w/o/'' \<and> \<not> os_path_exists env_ok ''/w/o/'' \<and>
        os_path_exists (env_ok\<lparr>tree_at := (tree_at env_ok)(''/w/o/'' \<mapsto> Dir [] [])\<rparr>) ''/w/o/'') \<and>
   os_path_exists env_build_exists ''/w/o/'' \<and>
   mkdir_error env_build_exists ''/w/o/'' = Some (OtherError ''FileExistsError'') \<and>
   (\<exists>q. Project_init env_build_exists ''p.toml'' = Inr (q, env_build_exists))"
proof -
  let ?e' = "env_ok\<lparr>tree_at := (tree_at env_ok)(''/w/o/'' \<mapsto> Dir [] [])\<rparr>"
  let ?tb = "[(''a'', \<lparr>filename = ''a_tb'', ext_name = ''.v'', fullpath = ''/w/t/a_tb.v''\<rparr>)]"
  obtain p where ok: "Project_init env_ok ''p.toml'' = Inr (p, ?e')"
    and bp: "build_out_dir p = ''/w/o/''"
    by (simp add: env_ok_def project_defs run_defs)
  have ne: "\<not> os_path_exists env_ok ''/w/o/''"
    by (simp add: env_ok_def env_of_def trees_ok_def os_path_exists_def)
  have "os_path_exists ?e' (build_out_dir p)"
    using build_out_dir_exists_after_construction [THEN conjunct1, THEN mp, OF ok] by blast
  then have ex': "os_path_exists ?e' ''/w/o/''"
    by (simp add: bp)
  have first: "\<exists>p. Project_init env_ok ''p.toml'' = Inr (p, ?e') \<and>
        build_out_dir p = ''/w/o/'' \<and> \<not> os_path_exists env_ok ''/w/o/'' \<and>
        os_path_exists ?e' ''/w/o/''"
    by (intro exI [of _ p] conjI ok bp ne ex')
  have ex: "os_path_exists env_build_exists ''/w/o/''"
    by (simp add: env_build_exists_def env_of_def os_path_exists_def)
  have mk: "mkdir_error env_build_exists ''/w/o/'' = Some (OtherError ''FileExistsError'')"
    by (simp add: env_build_exists_def env_of_def)
  have ab: "os_path_abspath env_build_exists ''o'' @ os_sep = ''/w/o/''"
    by (simp add: env_build_exists_def os_sep_def run_defs)
  have h: "rtoml_load env_build_exists ''p.toml'' = Inr (doc_of prj_ok None) \<and>
    project (doc_of prj_ok None) = Some prj_ok \<and>
    load_project_properties env_build_exists prj_ok = Inr (''v'', ''a'', ''/w/r'', files_ok) \<and>
    prj_ok ''tb_dir'' = Some ''./t'' \<and> prj_ok ''tb_dir_pattern'' = Some ''t/.*'' \<and>
    file_lists env_build_exists ''./t'' ''t/.*'' append_file_to_map_parteval [] = Inr tb_files_ok \<and>
    load_testbench_files env_build_exists files_ok prj_ok tb_files_ok = Inr ?tb \<and>
    (case ip (doc_of prj_ok None) of None \<Rightarrow> Inr []
     | Some decls \<Rightarrow> load_ip_cores env_build_exists decls) = Inr [] \<and>
    (case prj_ok ''spec'' of None \<Rightarrow> Inr ([], [])
     | Some sf \<Rightarrow> load_spec_file env_build_exists sf) = Inr ([], []) \<and>
    prj_ok ''build_dir'' = Some ''o''"
    by (simp add: env_build_exists_def files_ok_def tb_files_ok_def project_defs run_defs)
  have "if os_path_exists env_build_exists (os_path_abspath env_build_exists ''o'' @ os_sep)
       then \<exists>q. Project_init env_build_exists ''p.toml'' = Inr (q, env_build_exists)
       else (case mkdir_error env_build_exists (os_path_abspath env_build_exists ''o'' @ os_sep) of
               None \<Rightarrow>
                 \<exists>q. Project_init env_build_exists ''p.toml'' =
                   Inr (q, env_build_exists\<lparr>tree_at := (tree_at env_build_exists)
                       (os_path_abspath env_build_exists ''o'' @ os_sep \<mapsto> Dir [] [])\<rparr>)
             | Some err \<Rightarrow> \<exists>err'. Project_init env_build_exists ''p.toml'' = Inl err')"
    by (rule build_out_dir_exists_after_construction [THEN conjunct2, THEN mp, OF h])
  then have second: "\<exists>q. Project_init env_build_exists ''p.toml'' = Inr (q, env_build_exists)"
    using ex by (simp only: ab if_True)
  show ?thesis
    by (intro conjI first ex mk second)
qed

section \<open>Paths that do not exist\<close>









section \<open>Duplicate module names\<close>

lemma feed_register_not_distinct:
  assumes "\<not> distinct (map fst es)"
  shows "\<exists>k. 2 \<le> count_list (map fst es) k \<and>
           feed append_file_to_map_parteval es [] = Inl (Exception (msg_module_exists k))"
proof -
  from assms have "\<not> (distinct (map fst es) \<and>
      fst ` set es \<inter> fst ` set ([] :: (string, FileInfo) dict) = {})"
    by simp
  from feed_register_dup [OF this] show ?thesis by auto
qed

lemma init_body_testbench_files_Inl:
  "rtoml_load e file = Inr d \<Longrightarrow> project d = Some prj \<Longrightarrow>
     load_project_properties e prj = Inr (lang, tm, rd, fs) \<Longrightarrow>
     prj ''tb_dir'' = Some tbd \<Longrightarrow> prj ''tb_dir_pattern'' = Some tbp \<Longrightarrow>
     file_lists e tbd tbp append_file_to_map_parteval [] = Inl err \<Longrightarrow>
     init_body e file = Inl err"
  by (simp add: init_body_def lookup_Some)

lemma load_project_properties_files_Inl:
  "prj ''language'' = Some lang \<Longrightarrow> prj ''top_module'' = Some tm \<Longrightarrow>
     prj ''rtl_dir'' = Some rtl \<Longrightarrow> prj ''rtl_dir_pattern'' = Some pat \<Longrightarrow>
     file_lists e rtl pat append_file_to_map_parteval [] = Inl err \<Longrightarrow>
     load_project_properties e prj = Inl err"
  by (simp add: load_project_properties_def lookup_Some)

lemma load_ip_core_files_Inl:
  "d ''name'' = Some n \<Longrightarrow> d ''rtl_dir'' = Some rd \<Longrightarrow> d ''rtl_dir_pattern'' = Some pat \<Longrightarrow>
     file_lists e rd pat append_file_to_map_parteval [] = Inl err \<Longrightarrow>
     load_ip_core e d = Inl err"
  by (simp add: load_ip_core_def lookup_Some)

text \<open>
  Claim C4. Inserting a name that is already a key raises the bare \<open>Exception\<close> whose
  printed message names it. A sequence of discovered files in which two positions, in
  either order, carry one name makes registration fail with that exception for a name
  that occurs twice; so does every discovery whose names are not distinct. The exception
  of the primary registry, of the testbench files and of the files of an IP core each is
  the result of the whole construction, the steps before having succeeded.
\<close>

theorem duplicate_module_name_aborts:
  "(dict_in n m \<longrightarrow>
      append_file_to_map_parteval n fp x m = Inl (Exception (msg_module_exists n))) \<and>
   (i < length es \<and> j < length es \<and> i \<noteq> j \<and> fst (es ! i) = fst (es ! j) \<longrightarrow>
      (\<exists>k. 2 \<le> count_list (map fst es) k \<and>
         feed append_file_to_map_parteval es [] = Inl (Exception (msg_module_exists k)))) \<and>
   (re_compile e ([backslash] @ ''./'' @ pat) = Inr regexp \<and>
    \<not> distinct (map fst (discovered e regexp dir)) \<longrightarrow>
      (\<exists>k. 2 \<le> count_list (map fst (discovered e regexp dir)) k \<and>
         file_lists e dir pat append_file_to_map_parteval [] =
           Inl (Exception (msg_module_exists k)))) \<and>
   (file_lists e dir pat append_file_to_map_parteval [] = Inl (Exception (msg_module_exists k)) \<and>
    rtoml_load e file = Inr d \<and> project d = Some prj \<and> prj ''language'' = Some lang \<and>
    prj ''top_module'' = Some tm \<and> prj ''rtl_dir'' = Some dir \<and>
    prj ''rtl_dir_pattern'' = Some pat \<longrightarrow>
      Project_init e file = Inl (Exception (msg_module_exists k))) \<and>
   (file_lists e dir pat append_file_to_map_parteval [] = Inl (Exception (msg_module_exists k)) \<and>
    rtoml_load e file = Inr d \<and> project d = Some prj \<and>
    load_project_properties e prj = Inr (lang, tm, rd, fs) \<and>
    prj ''tb_dir'' = Some dir \<and> prj ''tb_dir_pattern'' = Some pat \<longrightarrow>
      Project_init e file = Inl (Exception (msg_module_exists k))) \<and>
   (file_lists e dir pat append_file_to_map_parteval [] = Inl (Exception (msg_module_exists k)) \<and>
    rtoml_load e file = Inr d \<and> project d = Some prj \<and>
    load_project_properties e prj = Inr (lang, tm, rd, fs) \<and>
    prj ''tb_dir'' = Some tbd \<and> prj ''tb_dir_pattern'' = Some tbp \<and>
    file_lists e tbd tbp append_file_to_map_parteval [] = Inr tbf \<and>
    load_testbench_files e fs prj tbf = Inr tb \<and>
    ip d = Some (pre @ d0 # post) \<and> map (load_ip_core e) pre = map Inr infos \<and>
    d0 ''name'' = Some cn \<and> d0 ''rtl_dir'' = Some dir \<and>
    d0 ''rtl_dir_pattern'' = Some pat \<longrightarrow>
      Project_init e file = Inl (Exception (msg_module_exists k)))"
proof (intro conjI impI)
  assume "dict_in n m"
  then show "append_file_to_map_parteval n fp x m = Inl (Exception (msg_module_exists n))"
    by (simp add: append_file_dup dict_in_def)
next
  assume h: "i < length es \<and> j < length es \<and> i \<noteq> j \<and> fst (es ! i) = fst (es ! j)"
  have "\<not> distinct (map fst es)"
  proof
    assume "distinct (map fst es)"
    with h show False
      using distinct_conv_nth [of "map fst es"] by auto
  qed
  then show "\<exists>k. 2 \<le> count_list (map fst es) k \<and>
         feed append_file_to_map_parteval es [] = Inl (Exception (msg_module_exists k))"
    by (rule feed_register_not_distinct)
next
  assume h: "re_compile e ([backslash] @ ''./'' @ pat) = Inr regexp \<and>
    \<not> distinct (map fst (discovered e regexp dir))"
  then obtain k where "2 \<le> count_list (map fst (discovered e regexp dir)) k"
    "feed append_file_to_map_parteval (discovered e regexp dir) [] =
       Inl (Exception (msg_module_exists k))"
    using feed_register_not_distinct by blast
  with h show "\<exists>k. 2 \<le> count_list (map fst (discovered e regexp dir)) k \<and>
         file_lists e dir pat append_file_to_map_parteval [] =
           Inl (Exception (msg_module_exists k))"
    by (auto simp: file_lists_register)
next
  let ?err = "Exception (msg_module_exists k)"
  assume a: "file_lists e dir pat append_file_to_map_parteval [] = Inl ?err \<and>
    rtoml_load e file = Inr d \<and> project d = Some prj \<and> prj ''language'' = Some lang \<and>
    prj ''top_module'' = Some tm \<and> prj ''rtl_dir'' = Some dir \<and>
    prj ''rtl_dir_pattern'' = Some pat"
  then have "load_project_properties e prj = Inl ?err"
    by (simp add: load_project_properties_files_Inl)
  with a have "init_body e file = Inl ?err"
    by (simp add: init_body_properties_Inl)
  then show "Project_init e file = Inl ?err"
    by (rule Project_init_Exception)
next
  let ?err = "Exception (msg_module_exists k)"
  assume a: "file_lists e dir pat append_file_to_map_parteval [] = Inl ?err \<and>
    rtoml_load e file = Inr d \<and> project d = Some prj \<and>
    load_project_properties e prj = Inr (lang, tm, rd, fs) \<and>
    prj ''tb_dir'' = Some dir \<and> prj ''tb_dir_pattern'' = Some pat"
  then have "init_body e file = Inl ?err"
    using init_body_testbench_files_Inl [of e "file" d prj lang tm rd fs dir pat ?err]
    by blast
  then show "Project_init e file = Inl ?err"
    by (rule Project_init_Exception)
next
  let ?err = "Exception (msg_module_exists k)"
  assume a: "file_lists e dir pat append_file_to_map_parteval [] = Inl ?err \<and>
    rtoml_load e file = Inr d \<and> project d = Some prj \<and>
    load_project_properties e prj = Inr (lang, tm, rd, fs) \<and>
    prj ''tb_dir'' = Some tbd \<and> prj ''tb_dir_pattern'' = Some tbp \<and>
    file_lists e tbd tbp append_file_to_map_parteval [] = Inr tbf \<and>
    load_testbench_files e fs prj tbf = Inr tb \<and>
    ip d = Some (pre @ d0 # post) \<and> map (load_ip_core e) pre = map Inr infos \<and>
    d0 ''name'' = Some cn \<and> d0 ''rtl_dir'' = Some dir \<and>
    d0 ''rtl_dir_pattern'' = Some pat"
  then have "load_ip_core e d0 = Inl ?err"
    by (simp add: load_ip_core_files_Inl)
  with a have "load_ip_cores e (pre @ d0 # post) = Inl ?err"
    by (simp add: load_ip_cores_def load_ip_cores_loop_first_error)
  with a have "init_body e file = Inl ?err"
    using init_body_ip_cores_Inl [of e "file" d prj lang tm rd fs tbd tbp tbf tb "pre @ d0 # post" ?err]
    by blast
  then show "Project_init e file = Inl ?err"
    by (rule Project_init_Exception)
qed

theorem duplicate_module_name_aborts_witness:
  "append_file_to_map_parteval ''a'' ''/w/r/s/a.sv'' ''.sv'' files_ok =
     Inl (Exception (msg_module_exists ''a'')) \<and>
   feed append_file_to_map_parteval
     [(''a'', ''/w/r/s/a.sv'', ''.sv''), (''a'', ''/w/r/a.v'', ''.v'')] [] =
     Inl (Exception (msg_module_exists ''a'')) \<and>
   file_lists env_dup_rtl ''./r'' ''r/.*'' append_file_to_map_parteval [] =
     Inl (Exception (msg_module_exists ''a'')) \<and>
   Project_init env_dup_rtl ''p.toml'' = Inl (Exception (msg_module_exists ''a'')) \<and>
   Project_init env_dup_tb ''p.toml'' = Inl (Exception (msg_module_exists ''a_tb'')) \<and>
   Project_init env_dup_ip ''p.toml'' = Inl (Exception (msg_module_exists ''f''))"
proof -
  let ?rx = "re_match_here [(Lit CHR ''.'', False), (Lit CHR ''/'', False), (Lit CHR ''r'', False),
      (Lit CHR ''/'', False), (AnyChar, True)]"
  let ?tb = "[(''a'', \<lparr>filename = ''a_tb'', ext_name = ''.v'', fullpath = ''/w/t/a_tb.v''\<rparr>)]"
  let ?es = "[(''a'', ''/w/r/s/a.sv'', ''.sv''), (''a'', ''/w/r/a.v'', ''.v'')]"
  let ?ipd = "ip_decl ''f'' ''./i'' ''i/.*''"
  have "dict_in ''a'' files_ok"
    by (simp add: dict_in_def files_ok_def)
  then have ins: "append_file_to_map_parteval ''a'' ''/w/r/s/a.sv'' ''.sv'' files_ok =
      Inl (Exception (msg_module_exists ''a''))"
    by (rule duplicate_module_name_aborts [THEN conjunct1, THEN mp])
  have "(1::nat) < length ?es \<and> 0 < length ?es \<and> (1::nat) \<noteq> 0 \<and> fst (?es ! 1) = fst (?es ! 0)"
    by simp
  from duplicate_module_name_aborts [THEN conjunct2, THEN conjunct1, THEN mp, OF this]
  obtain k0 where k0: "2 \<le> count_list (map fst ?es) k0 \<and>
      feed append_file_to_map_parteval ?es [] = Inl (Exception (msg_module_exists k0))" ..
  have "k0 = ''a''"
    using k0 by (cases "k0 = ''a''") simp_all
  with k0 have fd: "feed append_file_to_map_parteval ?es [] =
      Inl (Exception (msg_module_exists ''a''))"
    by simp
  \<comment> \<open>the primary registry\<close>
  have d1: "discovered env_dup_rtl ?rx ''./r'' =
      [(''a'', ''/w/r/a.v'', ''.v''), (''a'', ''/w/r/s/a.sv'', ''.sv'')]"
    by (simp add: discovered_def matching_def entry_of_def env_dup_rtl_def trees_ok_def run_defs)
  have r1: "re_compile env_dup_rtl ([backslash] @ ''./'' @ ''r/.*'') = Inr ?rx \<and>
      \<not> distinct (map fst (discovered env_dup_rtl ?rx ''./r''))"
    unfolding d1 by (simp add: env_dup_rtl_def run_defs)
  from duplicate_module_name_aborts
    [THEN conjunct2, THEN conjunct2, THEN conjunct1, THEN mp, OF r1]
  obtain k1 where k1: "2 \<le> count_list (map fst (discovered env_dup_rtl ?rx ''./r'')) k1 \<and>
      file_lists env_dup_rtl ''./r'' ''r/.*'' append_file_to_map_parteval [] =
        Inl (Exception (msg_module_exists k1))" ..
  have "k1 = ''a''"
    using k1 unfolding d1 by (cases "k1 = ''a''") simp_all
  with k1 have r3: "file_lists env_dup_rtl ''./r'' ''r/.*'' append_file_to_map_parteval [] =
      Inl (Exception (msg_module_exists ''a''))"
    by simp
  have r2: "rtoml_load env_dup_rtl ''p.toml'' = Inr (doc_of prj_ok None) \<and>
      project (doc_of prj_ok None) = Some prj_ok \<and> prj_ok ''language'' = Some ''v'' \<and>
      prj_ok ''top_module'' = Some ''a'' \<and> prj_ok ''rtl_dir'' = Some ''./r'' \<and>
      prj_ok ''rtl_dir_pattern'' = Some ''r/.*''"
    by (simp add: env_dup_rtl_def env_of_def rtoml_defs doc_of_def prj_ok_def)
  have rtl: "Project_init env_dup_rtl ''p.toml'' = Inl (Exception (msg_module_exists ''a''))"
    by (rule duplicate_module_name_aborts
        [THEN conjunct2, THEN conjunct2, THEN conjunct2, THEN conjunct1, THEN mp,
         OF conjI [OF r3 r2]])
  \<comment> \<open>the testbench files\<close>
  have t3: "file_lists env_dup_tb ''./t'' ''t/.*'' append_file_to_map_parteval [] =
      Inl (Exception (msg_module_exists ''a_tb''))"
    by (simp add: env_dup_tb_def trees_ok_def append_file_to_map_parteval_def dict_in_def run_defs)
  have t2: "rtoml_load env_dup_tb ''p.toml'' = Inr (doc_of prj_ok None) \<and>
      project (doc_of prj_ok None) = Some prj_ok \<and>
      load_project_properties env_dup_tb prj_ok = Inr (''v'', ''a'', ''/w/r'', files_ok) \<and>
      prj_ok ''tb_dir'' = Some ''./t'' \<and> prj_ok ''tb_dir_pattern'' = Some ''t/.*''"
    by (simp add: env_dup_tb_def files_ok_def project_defs run_defs)
  have tbr: "Project_init env_dup_tb ''p.toml'' = Inl (Exception (msg_module_exists ''a_tb''))"
    by (rule duplicate_module_name_aborts
        [THEN conjunct2, THEN conjunct2, THEN conjunct2, THEN conjunct2, THEN conjunct1, THEN mp,
         OF conjI [OF t3 t2]])
  \<comment> \<open>the files of an IP core\<close>
  have i3: "file_lists env_dup_ip ''./i'' ''i/.*'' append_file_to_map_parteval [] =
      Inl (Exception (msg_module_exists ''f''))"
    by (simp add: env_dup_ip_def trees_ok_def append_file_to_map_parteval_def dict_in_def run_defs)
  have i2: "rtoml_load env_dup_ip ''p.toml'' = Inr (doc_of prj_ok (Some ([] @ ?ipd # []))) \<and>
      project (doc_of prj_ok (Some ([] @ ?ipd # []))) = Some prj_ok \<and>
      load_project_properties env_dup_ip prj_ok = Inr (''v'', ''a'', ''/w/r'', files_ok) \<and>
      prj_ok ''tb_dir'' = Some ''./t'' \<and> prj_ok ''tb_dir_pattern'' = Some ''t/.*'' \<and>
      file_lists env_dup_ip ''./t'' ''t/.*'' append_file_to_map_parteval [] = Inr tb_files_ok \<and>
      load_testbench_files env_dup_ip files_ok prj_ok tb_files_ok = Inr ?tb \<and>
      ip (doc_of prj_ok (Some ([] @ ?ipd # []))) = Some ([] @ ?ipd # []) \<and>
      map (load_ip_core env_dup_ip) [] = map Inr [] \<and>
      ?ipd ''name'' = Some ''f'' \<and> ?ipd ''rtl_dir'' = Some ''./i'' \<and>
      ?ipd ''rtl_dir_pattern'' = Some ''i/.*''"
    by (simp add: env_dup_ip_def files_ok_def tb_files_ok_def ip_decl_def project_defs run_defs)
  have ipr: "Project_init env_dup_ip ''p.toml'' = Inl (Exception (msg_module_exists ''f''))"
    by (rule duplicate_module_name_aborts
        [THEN conjunct2, THEN conjunct2, THEN conjunct2, THEN conjunct2, THEN conjunct2, THEN mp,
         OF conjI [OF i3 i2]])
  show ?thesis
    by (intro conjI ins fd r3 rtl tbr ipr)
qed

end
